theory Spec2Isabelle
  imports Complex_Main "HOL-Library.Word"
begin

unbundle bit_operations_syntax

section \<open>The MPSC ring buffer (buffer.go)\<close>

text \<open>
  A byte slice is a list of bytes. A slot of the ring holds an atomic pointer to a byte
  slice; the nil pointer is \<open>None\<close>. The ring has the four fields of the Go struct:
  the slot array, the index mask, and the two 64-bit counters.
\<close>

type_synonym bytes = "8 word list"

record ringBuffer =
  buffer :: "bytes option list"
  mask :: "64 word"
  head :: "64 word"
  tail :: "64 word"

text \<open>
  \<open>bits.Len64\<close> is the number of bits needed to write a value, and
  \<open>bits.LeadingZeros64 x = 64 - bits.Len64 x\<close>.
\<close>

fun Len64 :: "nat \<Rightarrow> nat" where
  "Len64 n = (if n = 0 then 0 else Suc (Len64 (n div 2)))"

declare Len64.simps [simp del]

definition LeadingZeros64 :: "64 word \<Rightarrow> nat" where
  "LeadingZeros64 x = 64 - Len64 (unat x)"

text \<open>
  \<open>nextPow2\<close>: the shift is a shift of a 64-bit value, so a shift count of 64 gives 0,
  as it does in Go.
\<close>

definition nextPow2 :: "64 word \<Rightarrow> 64 word" where
  "nextPow2 x = (if x \<le> 1 then 1 else push_bit (64 - LeadingZeros64 (x - 1)) 1)"

text \<open>
  \<open>newRingBuffer\<close> rounds the requested size and allocates the slot array with
  \<open>make\<close>. The allocation can fail: the runtime refuses a slice of more than
  \<open>maxAlloc\<close> bytes with the panic \<open>makeslice: len out of range\<close>, which for slots of one
  pointer (8 bytes) and \<open>maxAlloc = 2^48\<close> on the 64-bit platforms is a length above
  \<open>2^45\<close>, and the program dies when memory cannot hold the array. \<open>avail\<close> is the
  number of slots memory can hold at the time of the call. The result \<open>None\<close> is that no
  ring is created.
\<close>

definition max_slots :: nat where
  "max_slots = 2 ^ 45"

definition rounded_size :: "64 word \<Rightarrow> 64 word" where
  "rounded_size size0 = nextPow2 (if size0 < 64 then 64 else size0)"

definition ring_with :: "64 word \<Rightarrow> ringBuffer" where
  "ring_with size2 = \<lparr>buffer = replicate (unat size2) None, mask = size2 - 1, head = 0, tail = 0\<rparr>"

definition newRingBuffer :: "nat \<Rightarrow> 64 word \<Rightarrow> ringBuffer option" where
  "newRingBuffer avail size0 =
     (let size2 = rounded_size size0
      in if unat size2 \<le> max_slots \<and> unat size2 \<le> avail then Some (ring_with size2) else None)"


subsection \<open>push, pushOwned and pop as atomic steps\<close>

text \<open>
  Producers and the consumer run concurrently, and every access to \<open>head\<close>, \<open>tail\<close>
  and a slot is one atomic operation. A thread is therefore a small state machine whose
  state is the position in \<open>push\<close>, \<open>pushOwned\<close> or \<open>pop\<close> together with the local
  variables read so far, and one step of a thread is one atomic operation (with the local
  computation that precedes it):
  \<^item> \<open>PushLoadTail\<close>: about to run \<open>tail := rb.tail.Load()\<close>;
  \<^item> \<open>PushLoadHead\<close>: about to run \<open>head := rb.head.Load()\<close>;
  \<^item> \<open>PushCAS\<close>: about to test \<open>tail - head >= size\<close> and, if the ring is not full, to
    run \<open>rb.tail.CompareAndSwap(tail, tail + 1)\<close>;
  \<^item> \<open>PushStore\<close>: the slot is reserved, about to store the payload pointer;
  \<^item> \<open>PopLoadHead\<close>, \<open>PopLoadTail\<close>, \<open>PopCAS\<close> likewise for the consumer;
  \<^item> \<open>PopLoadSlot\<close>: the head is advanced, about to load the slot;
  \<^item> \<open>PopClear\<close>: about to store nil into the slot and return the payload.
  The flag of the push states says whether the call is \<open>pushOwned\<close>: \<open>push\<close> stores a
  copy of the payload taken from the buffer pool, \<open>pushOwned\<close> the caller's slice; the
  bytes stored are the same. An index outside the slot array is a run-time panic.
\<close>

datatype opcall = Push bytes | PushOwned bytes | Pop

datatype opresult = PushDone bool | PopDone "bytes option"

datatype thread =
    Idle
  | Returned opresult
  | Panicked
  | PushLoadTail bool bytes
  | PushLoadHead bool bytes "64 word"
  | PushCAS bool bytes "64 word" "64 word"
  | PushStore bool bytes "64 word"
  | PopLoadHead
  | PopLoadTail "64 word"
  | PopCAS "64 word" "64 word"
  | PopLoadSlot "64 word"
  | PopClear "64 word" bytes

fun thread_step :: "ringBuffer \<Rightarrow> thread \<Rightarrow> ringBuffer \<times> thread" where
  "thread_step rb (PushLoadTail ow d) = (rb, PushLoadHead ow d (tail rb))"
| "thread_step rb (PushLoadHead ow d t) = (rb, PushCAS ow d t (head rb))"
| "thread_step rb (PushCAS ow d t h) =
     (if t - h \<ge> of_nat (length (buffer rb)) then (rb, Returned (PushDone False))
      else if tail rb = t then (rb\<lparr>tail := t + 1\<rparr>, PushStore ow d t)
      else (rb, PushLoadTail ow d))"
| "thread_step rb (PushStore ow d t) =
     (let idx = unat (t AND mask rb)
      in if idx < length (buffer rb)
         then (rb\<lparr>buffer := (buffer rb)[idx := Some d]\<rparr>, Returned (PushDone True))
         else (rb, Panicked))"
| "thread_step rb PopLoadHead = (rb, PopLoadTail (head rb))"
| "thread_step rb (PopLoadTail h) = (rb, PopCAS h (tail rb))"
| "thread_step rb (PopCAS h t) =
     (if h \<ge> t then (rb, Returned (PopDone None))
      else if head rb = h then (rb\<lparr>head := h + 1\<rparr>, PopLoadSlot h)
      else (rb, PopLoadHead))"
| "thread_step rb (PopLoadSlot h) =
     (let idx = unat (h AND mask rb)
      in if idx < length (buffer rb)
         then (case buffer rb ! idx of
                 None \<Rightarrow> (rb, PopLoadHead)
               | Some d \<Rightarrow> (rb, PopClear h d))
         else (rb, Panicked))"
| "thread_step rb (PopClear h d) =
     (let idx = unat (h AND mask rb)
      in if idx < length (buffer rb)
         then (rb\<lparr>buffer := (buffer rb)[idx := None]\<rparr>, Returned (PopDone (Some d)))
         else (rb, Panicked))"
| "thread_step rb Idle = (rb, Idle)"
| "thread_step rb (Returned r) = (rb, Returned r)"
| "thread_step rb Panicked = (rb, Panicked)"

text \<open>
  A configuration is the shared ring and the state of every thread. An execution is a
  list of events: a thread that is not inside a call starts one, or a thread takes its
  next atomic step. Any interleaving of any number of producers and consumers is such a
  list.
\<close>

record config =
  ring :: ringBuffer
  threads :: "nat \<Rightarrow> thread"

datatype event = Call nat opcall | Step nat

fun start :: "opcall \<Rightarrow> thread" where
  "start (Push d) = PushLoadTail False d"
| "start (PushOwned d) = PushLoadTail True d"
| "start Pop = PopLoadHead"

fun fire :: "config \<Rightarrow> event \<Rightarrow> config" where
  "fire c (Call i opc) =
     (case threads c i of
        Idle \<Rightarrow> c\<lparr>threads := (threads c)(i := start opc)\<rparr>
      | Returned r \<Rightarrow> c\<lparr>threads := (threads c)(i := start opc)\<rparr>
      | _ \<Rightarrow> c)"
| "fire c (Step i) =
     (case thread_step (ring c) (threads c i) of
        (rb, th) \<Rightarrow> \<lparr>ring = rb, threads = (threads c)(i := th)\<rparr>)"

definition run :: "config \<Rightarrow> event list \<Rightarrow> config" where
  "run c es = foldl fire c es"

text \<open>
  The configuration at the start: the ring as \<open>newRingBuffer n\<close> builds it, and no thread
  inside a call.
\<close>

definition fresh :: "64 word \<Rightarrow> config" where
  "fresh n = \<lparr>ring = ring_with (rounded_size n), threads = (\<lambda>i. Idle)\<rparr>"

text \<open>
  What a thread has read stays below the counters: this is what the compare-and-swap
  relies on.
\<close>

fun thread_ok :: "ringBuffer \<Rightarrow> thread \<Rightarrow> bool" where
  "thread_ok rb (PushCAS ow d t h) = (h \<le> head rb)"
| "thread_ok rb (PopCAS h t) = (t \<le> tail rb)"
| "thread_ok rb th = True"

text \<open>
  The invariant of an execution of \<open>k\<close> events: the tail has been advanced at most
  \<open>k\<close> times, the head is below the tail, at most as many slots are reserved as the
  ring has, and every thread's local reads are below the counters.
\<close>

definition ring_inv :: "nat \<Rightarrow> config \<Rightarrow> bool" where
  "ring_inv k c \<longleftrightarrow>
     unat (tail (ring c)) \<le> k \<and> head (ring c) \<le> tail (ring c)
   \<and> unat (tail (ring c)) - unat (head (ring c)) \<le> length (buffer (ring c))
   \<and> (\<forall>i. thread_ok (ring c) (threads c i))"

text \<open>One producer and one consumer call, run alone on thread 0.\<close>

definition push_alone :: "event list" where
  "push_alone = [Call 0 (Push []), Step 0, Step 0, Step 0, Step 0]"

definition pop_alone :: "event list" where
  "pop_alone = [Call 0 Pop, Step 0, Step 0, Step 0, Step 0, Step 0]"

text \<open>
  \<open>quiet w c\<close>: a ring of 64 slots, all empty, with both counters at \<open>w\<close>, and thread 0
  not inside a call. \<open>laps\<close> is the largest value of a 64-bit counter.
\<close>

definition quiet :: "64 word \<Rightarrow> config \<Rightarrow> bool" where
  "quiet w c \<longleftrightarrow>
     head (ring c) = w \<and> tail (ring c) = w \<and> buffer (ring c) = replicate 64 None
   \<and> mask (ring c) = 63
   \<and> (threads c 0 = Idle \<or> (\<exists>r. threads c 0 = Returned r))"

definition laps :: nat where
  "laps = 2 ^ 64 - 1"

text \<open>
  An interleaving of two producers and a consumer: both producers read the same tail,
  the second loses the compare-and-swap and retries.
\<close>

definition sched :: "event list" where
  "sched = [Call 0 (Push [1]), Call 1 (PushOwned [2]), Step 0, Step 1, Step 0, Step 1,
            Step 0, Step 1, Step 0, Call 2 Pop, Step 1, Step 2, Step 1, Step 2, Step 1,
            Step 2, Step 1, Step 2, Step 2]"

subsection \<open>push, pushOwned and pop without interference\<close>

text \<open>
  When no other thread touches the ring between the loads and the compare-and-swap of a
  call, the compare-and-swap succeeds at once. These are the functions the Logger's own
  operations use below. The result \<open>None\<close> is the run-time panic of an index outside
  the slot array. \<open>pop\<close> skips a reserved slot whose payload is still nil and tries
  the next one.
\<close>

definition push :: "ringBuffer \<Rightarrow> bytes \<Rightarrow> (bool \<times> ringBuffer) option" where
  "push rb data =
     (if tail rb - head rb \<ge> of_nat (length (buffer rb)) then Some (False, rb)
      else (let idx = unat (tail rb AND mask rb)
            in if idx < length (buffer rb)
               then Some (True, rb\<lparr>buffer := (buffer rb)[idx := Some data], tail := tail rb + 1\<rparr>)
               else None))"

definition pushOwned :: "ringBuffer \<Rightarrow> bytes \<Rightarrow> (bool \<times> ringBuffer) option" where
  "pushOwned rb data = push rb data"

function pop :: "ringBuffer \<Rightarrow> (bytes option \<times> ringBuffer) option" where
  "pop rb =
     (if head rb \<ge> tail rb then Some (None, rb)
      else (let idx = unat (head rb AND mask rb)
            in if idx < length (buffer rb)
               then (case buffer rb ! idx of
                       None \<Rightarrow> pop (rb\<lparr>head := head rb + 1\<rparr>)
                     | Some data \<Rightarrow>
                         Some (Some data, rb\<lparr>buffer := (buffer rb)[idx := None],
                                               head := head rb + 1\<rparr>))
               else None))"
  by pat_completeness auto
termination
proof (relation "measure (\<lambda>rb. unat (tail rb - head rb))")
  show "wf (measure (\<lambda>rb. unat (tail rb - head rb)))" by simp
next
  fix rb :: ringBuffer and x :: nat
  assume "\<not> tail rb \<le> head rb"
  then have "tail rb - head rb \<noteq> 0" by auto
  then have lt: "unat (tail rb - head rb - 1) < unat (tail rb - head rb)"
    by (simp add: unat_minus_one unat_gt_0)
  have eq: "tail rb - (head rb + 1) = tail rb - head rb - 1" by simp
  have "unat (tail rb - (head rb + 1)) < unat (tail rb - head rb)"
    using lt by (simp only: eq)
  then show "(rb\<lparr>head := head rb + 1\<rparr>, rb) \<in> measure (\<lambda>rb. unat (tail rb - head rb))"
    by simp
qed

declare pop.simps [simp del]

section \<open>64-bit floating point\<close>

text \<open>
  The contention ratio is computed in \<open>float64\<close>. A \<open>float64\<close> value is modelled by the
  rational number it denotes, and \<open>float64 q\<close> is the value nearest to the rational \<open>q\<close>
  with a 53-bit significand, ties going to the even significand (IEEE 754 binary64,
  round to nearest even). The conversion of an integer, the division and the constant
  \<open>0.1\<close> of the source are each rounded this way. The values that occur here lie between
  \<open>2^-64\<close> and \<open>2^64\<close>, far from the subnormal and the overflow range, which are left out.
\<close>

fun bitlen :: "nat \<Rightarrow> nat" where
  "bitlen n = (if n = 0 then 0 else Suc (bitlen (n div 2)))"

declare bitlen.simps [simp del]

definition ilog2 :: "rat \<Rightarrow> int" where
  "ilog2 q = (case quotient_of q of (a, b) \<Rightarrow>
       (let e0 = int (bitlen (nat a)) - int (bitlen (nat b))
        in if power_int 2 e0 \<le> q then e0 else e0 - 1))"

definition round_even :: "rat \<Rightarrow> int" where
  "round_even x =
     (let k = \<lfloor>x\<rfloor>; r = x - of_int k
      in if r < 1 / 2 then k else if 1 / 2 < r then k + 1 else if even k then k else k + 1)"

definition float64 :: "rat \<Rightarrow> rat" where
  "float64 q =
     (if q = 0 then 0
      else (let u = power_int 2 (ilog2 q - 52) in of_int (round_even (q / u)) * u))"

text \<open>The conversion \<open>float64(x)\<close> of a \<open>uint64\<close>.\<close>

definition float64_of_uint64 :: "64 word \<Rightarrow> rat" where
  "float64_of_uint64 x = float64 (of_nat (unat x))"

section \<open>Size and duration strings (config.go)\<close>

text \<open>
  Every error of the library is a value of one type. The constructors name the error the
  code builds; an error that wraps another one carries it.
\<close>

datatype error =
    ErrSyntax
  | ErrRange
  | ErrInvalidDuration
  | ErrMissingUnit
  | ErrUnknownUnit string
  | ErrEmptySize
  | ErrUnknownSizeSuffix
  | ErrInvalidSizeNumber error
  | ErrSizeTooLarge
  | ErrEmptyDuration
  | ErrUnknownDurationSuffix
  | ErrInvalidDurationNumber error
  | ErrConfigNil
  | ErrEmptyFilename
  | ErrBothMaxAge
  | ErrInvalidMaxAgeStr error
  | ErrInvalidMaxSizeStr error
  | ErrNoCurrentFile
  | ErrNoFileToRotate
  | ErrClosed
  | ErrOS string
  | ErrRetries int error
  | ErrWrap string error
  | ErrPathTooLong nat

text \<open>
  A Go string is a sequence of bytes, here a list of characters. \<open>wrap64\<close> is the value
  of a mathematical integer stored in an \<open>int64\<close>.
\<close>

definition is_digit :: "char \<Rightarrow> bool" where
  "is_digit c \<longleftrightarrow> 48 \<le> (of_char c :: nat) \<and> (of_char c :: nat) \<le> 57"

definition digit_val :: "char \<Rightarrow> nat" where
  "digit_val c = of_char c - 48"

definition wrap64 :: "int \<Rightarrow> int" where
  "wrap64 x = (x + 2 ^ 63) mod 2 ^ 64 - 2 ^ 63"

definition HasSuffix :: "string \<Rightarrow> string \<Rightarrow> bool" where
  "HasSuffix s suf \<longleftrightarrow> length suf \<le> length s \<and> drop (length s - length suf) s = suf"

text \<open>
  \<open>strings.ToUpper\<close> and \<open>strings.ToLower\<close> on the ASCII letters. (On other code points
  Go applies the Unicode case mapping; no such mapping yields one of the suffix letters
  or a digit, so a string with other code points is rejected in either reading.)
\<close>

definition upper_char :: "char \<Rightarrow> char" where
  "upper_char c = (if 97 \<le> (of_char c :: nat) \<and> (of_char c :: nat) \<le> 122
                   then char_of ((of_char c :: nat) - 32) else c)"

definition lower_char :: "char \<Rightarrow> char" where
  "lower_char c = (if 65 \<le> (of_char c :: nat) \<and> (of_char c :: nat) \<le> 90
                   then char_of ((of_char c :: nat) + 32) else c)"

definition ToUpper :: "string \<Rightarrow> string" where
  "ToUpper s = map upper_char s"

definition ToLower :: "string \<Rightarrow> string" where
  "ToLower s = map lower_char s"

subsection \<open>strconv.ParseInt in base 10 with 64 bits\<close>

text \<open>
  The standard library's \<open>ParseUint\<close> reads decimal digits into a \<open>uint64\<close>; a
  character that is not a digit is a syntax error, a value above \<open>2^64 - 1\<close> a range
  error. \<open>ParseInt\<close> takes an optional sign first and checks the signed range.
\<close>

fun ParseUint_from :: "nat \<Rightarrow> string \<Rightarrow> error + nat" where
  "ParseUint_from n [] = Inr n"
| "ParseUint_from n (c # cs) =
     (if \<not> is_digit c then Inl ErrSyntax
      else if n \<ge> (2 ^ 64 - 1) div 10 + 1 then Inl ErrRange
      else if n * 10 + digit_val c > 2 ^ 64 - 1 then Inl ErrRange
      else ParseUint_from (n * 10 + digit_val c) cs)"

definition ParseUint :: "string \<Rightarrow> error + nat" where
  "ParseUint s = (if s = [] then Inl ErrSyntax else ParseUint_from 0 s)"

definition ParseInt :: "string \<Rightarrow> error + int" where
  "ParseInt s =
     (if s = [] then Inl ErrSyntax
      else (let neg = (hd s = CHR ''-'');
                s1 = (if hd s = CHR ''+'' \<or> hd s = CHR ''-'' then tl s else s)
            in case ParseUint s1 of
                 Inl ErrSyntax \<Rightarrow> Inl ErrSyntax
               | Inl e \<Rightarrow> Inl ErrRange
               | Inr un \<Rightarrow>
                   if \<not> neg \<and> un \<ge> 2 ^ 63 then Inl ErrRange
                   else if neg \<and> un > 2 ^ 63 then Inl ErrRange
                   else Inr (if neg then - int un else int un)))"

subsection \<open>ParseSize\<close>

definition ParseSize :: "string \<Rightarrow> error + int" where
  "ParseSize s0 =
     (if s0 = [] then Inl ErrEmptySize
      else case ParseInt s0 of
        Inr val \<Rightarrow> Inr val
      | Inl e0 \<Rightarrow>
         (let s = ToUpper s0;
              cut = (\<lambda>k. take (length s - k) s);
              suffix =
                (if HasSuffix s ''KB'' then Some (1024, cut 2)
                 else if HasSuffix s ''MB'' then Some (1024 * 1024, cut 2)
                 else if HasSuffix s ''GB'' then Some (1024 * 1024 * 1024, cut 2)
                 else if HasSuffix s ''TB'' then Some (1024 * 1024 * 1024 * 1024, cut 2)
                 else if HasSuffix s ''K'' then Some (1024, cut 1)
                 else if HasSuffix s ''M'' then Some (1024 * 1024, cut 1)
                 else if HasSuffix s ''G'' then Some (1024 * 1024 * 1024, cut 1)
                 else if HasSuffix s ''T'' then Some (1024 * 1024 * 1024 * 1024, cut 1)
                 else None)
          in case suffix of
               None \<Rightarrow> Inl ErrUnknownSizeSuffix
             | Some (multiplier, numStr) \<Rightarrow>
                 (case ParseInt numStr of
                    Inl e \<Rightarrow> Inl (ErrInvalidSizeNumber e)
                  | Inr val \<Rightarrow>
                      (let result = wrap64 (val * multiplier)
                       in if result < 0 then Inl ErrSizeTooLarge else Inr result))))"

subsection \<open>time.ParseDuration of the standard library\<close>

text \<open>
  The standard parser reads \<open>[-+]?([0-9]*(\.[0-9]*)?[a-z]+)+\<close>: a sign, then one or more
  groups of a decimal number, with an optional fraction, and a unit. The units are
  \<open>ns\<close>, \<open>us\<close> (also written with either Unicode micro sign), \<open>ms\<close>, \<open>s\<close>, \<open>m\<close> and
  \<open>h\<close>. The sum is accumulated in a \<open>uint64\<close> and checked against \<open>2^63\<close> at each
  stage; the fraction of a group is scaled in \<open>float64\<close>.
\<close>

fun leadingInt_from :: "nat \<Rightarrow> string \<Rightarrow> (nat \<times> string) option" where
  "leadingInt_from x [] = Some (x, [])"
| "leadingInt_from x (c # cs) =
     (if \<not> is_digit c then Some (x, c # cs)
      else if x > 2 ^ 63 div 10 then None
      else if x * 10 + digit_val c > 2 ^ 63 then None
      else leadingInt_from (x * 10 + digit_val c) cs)"

definition leadingInt :: "string \<Rightarrow> (nat \<times> string) option" where
  "leadingInt s = leadingInt_from 0 s"

fun leadingFraction_from :: "nat \<Rightarrow> rat \<Rightarrow> bool \<Rightarrow> string \<Rightarrow> nat \<times> rat \<times> string" where
  "leadingFraction_from x scale overflow [] = (x, scale, [])"
| "leadingFraction_from x scale overflow (c # cs) =
     (if \<not> is_digit c then (x, scale, c # cs)
      else if overflow then leadingFraction_from x scale True cs
      else if x > (2 ^ 63 - 1) div 10 then leadingFraction_from x scale True cs
      else if x * 10 + digit_val c > 2 ^ 63 then leadingFraction_from x scale True cs
      else leadingFraction_from (x * 10 + digit_val c) (float64 (scale * 10)) False cs)"

definition leadingFraction :: "string \<Rightarrow> nat \<times> rat \<times> string" where
  "leadingFraction s = leadingFraction_from 0 1 False s"

definition unitMap :: "string \<Rightarrow> nat option" where
  "unitMap u =
     (if u = ''ns'' then Some 1
      else if u = ''us'' then Some 1000
      else if u = [char_of (194::nat), char_of (181::nat), CHR ''s''] then Some 1000
      else if u = [char_of (206::nat), char_of (188::nat), CHR ''s''] then Some 1000
      else if u = ''ms'' then Some 1000000
      else if u = ''s'' then Some 1000000000
      else if u = ''m'' then Some 60000000000
      else if u = ''h'' then Some 3600000000000
      else None)"

definition in_number :: "char \<Rightarrow> bool" where
  "in_number c \<longleftrightarrow> c = CHR ''.'' \<or> is_digit c"

text \<open>
  One group of the loop: the number, the unit, and the value of the group added to the
  sum \<open>d\<close>. The result is the new sum and the rest of the string.
\<close>

definition duration_group :: "string \<Rightarrow> nat \<Rightarrow> error + (nat \<times> string)" where
  "duration_group s d =
     (if \<not> in_number (hd s) then Inl ErrInvalidDuration
      else case leadingInt s of
        None \<Rightarrow> Inl ErrInvalidDuration
      | Some (v, s1) \<Rightarrow>
         (let pre = (length s \<noteq> length s1);
              frac = (if s1 \<noteq> [] \<and> hd s1 = CHR ''.''
                      then (case leadingFraction (tl s1) of
                              (f, scale, s2) \<Rightarrow> (f, scale, s2, length (tl s1) \<noteq> length s2))
                      else (0, 1, s1, False))
          in case frac of (f, scale, s2, post) \<Rightarrow>
             if \<not> pre \<and> \<not> post then Inl ErrInvalidDuration
             else (let u = takeWhile (\<lambda>c. \<not> in_number c) s2;
                       s3 = dropWhile (\<lambda>c. \<not> in_number c) s2
                   in if u = [] then Inl ErrMissingUnit
                      else case unitMap u of
                        None \<Rightarrow> Inl (ErrUnknownUnit u)
                      | Some unit \<Rightarrow>
                          if v > 2 ^ 63 div unit then Inl ErrInvalidDuration
                          else (let v1 = v * unit;
                                    v2 = (if f > 0
                                          then (v1 + nat \<lfloor>float64 (float64 (of_nat f)
                                                  * float64 (float64 (of_nat unit) / scale))\<rfloor>)
                                               mod 2 ^ 64
                                          else v1)
                                in if f > 0 \<and> v2 > 2 ^ 63 then Inl ErrInvalidDuration
                                   else (let d1 = (d + v2) mod 2 ^ 64
                                         in if d1 > 2 ^ 63 then Inl ErrInvalidDuration
                                            else Inr (d1, s3))))))"

text \<open>
  The loop \<open>for s != ""\<close>. Every group consumes at least the characters of its unit, so
  the loop runs at most once per character; \<open>n\<close> bounds the number of rounds and
  \<open>duration_groups\<close> starts it with the length of the string.
\<close>

fun duration_loop :: "nat \<Rightarrow> string \<Rightarrow> nat \<Rightarrow> error + nat" where
  "duration_loop 0 s d = (if s = [] then Inr d else Inl ErrInvalidDuration)"
| "duration_loop (Suc n) s d =
     (if s = [] then Inr d
      else case duration_group s d of
        Inl e \<Rightarrow> Inl e
      | Inr (d1, s3) \<Rightarrow> duration_loop n s3 d1)"

definition duration_groups :: "string \<Rightarrow> error + nat" where
  "duration_groups s = duration_loop (length s) s 0"

definition time_ParseDuration :: "string \<Rightarrow> error + int" where
  "time_ParseDuration orig =
     (let neg = (orig \<noteq> [] \<and> hd orig = CHR ''-'');
          s = (if orig \<noteq> [] \<and> (hd orig = CHR ''-'' \<or> hd orig = CHR ''+'') then tl orig else orig)
      in if s = ''0'' then Inr 0
         else if s = [] then Inl ErrInvalidDuration
         else case duration_groups s of
           Inl e \<Rightarrow> Inl e
         | Inr d \<Rightarrow>
             if neg then Inr (wrap64 (- wrap64 (int d)))
             else if d > 2 ^ 63 - 1 then Inl ErrInvalidDuration
             else Inr (int d))"

subsection \<open>ParseDuration\<close>

definition Hour :: int where
  "Hour = 3600000000000"

definition ParseDuration :: "string \<Rightarrow> error + int" where
  "ParseDuration s0 =
     (if s0 = [] then Inl ErrEmptyDuration
      else case time_ParseDuration s0 of
        Inr d \<Rightarrow> Inr d
      | Inl e0 \<Rightarrow>
         (let s = ToLower s0;
              numStr = take (length s - 1) s;
              suffix =
                (if HasSuffix s ''d'' then Some (24 * Hour)
                 else if HasSuffix s ''w'' then Some (7 * 24 * Hour)
                 else if HasSuffix s ''y'' then Some (365 * 24 * Hour)
                 else None)
          in case suffix of
               None \<Rightarrow> Inl ErrUnknownDurationSuffix
             | Some multiplier \<Rightarrow>
                 (case ParseInt numStr of
                    Inl e \<Rightarrow> Inl (ErrInvalidDurationNumber e)
                  | Inr val \<Rightarrow> Inr (wrap64 (val * multiplier)))))"

text \<open>
  The value of a string of decimal digits read after the value \<open>x\<close>, and the strings
  that consist of at least one decimal digit.
\<close>

fun decimal :: "nat \<Rightarrow> string \<Rightarrow> nat" where
  "decimal x [] = x"
| "decimal x (c # cs) = decimal (x * 10 + digit_val c) cs"

definition digits :: "string \<Rightarrow> bool" where
  "digits ds \<longleftrightarrow> ds \<noteq> [] \<and> list_all is_digit ds"

text \<open>
  The last letter of a unit of the standard parser, and the standard units with their
  length in nanoseconds.
\<close>

definition unit_end :: "char \<Rightarrow> bool" where
  "unit_end c \<longleftrightarrow> c = CHR ''s'' \<or> c = CHR ''m'' \<or> c = CHR ''h''"

definition std_units :: "(string \<times> nat) list" where
  "std_units = [(''ns'', 1), (''us'', 1000), (''ms'', 1000000), (''s'', 1000000000),
                (''m'', 60000000000), (''h'', 3600000000000)]"

text \<open>The extended suffixes with the multipliers of the \<open>switch\<close> in \<open>ParseDuration\<close>.\<close>

definition ext_units :: "(string \<times> int) list" where
  "ext_units = [(''d'', 24 * Hour), (''w'', 7 * 24 * Hour), (''y'', 365 * 24 * Hour)]"

section \<open>The Logger (lethe.go)\<close>

text \<open>
  The background worker pool: the tasks submitted and not yet taken by a worker (the
  channel has room for 100), and whether the pool has been stopped.
\<close>

datatype TaskType = Cleanup | Compress_task | Checksum_task

record BackgroundTask =
  TaskType :: TaskType
  FilePath :: string

record BackgroundWorkers =
  taskQueue :: "BackgroundTask list"
  cancelled :: bool

text \<open>
  The consumer of the ring: the address of the ring it drains and whether it has been
  stopped.
\<close>

record MPSCConsumer =
  cbuffer :: nat
  cstopped :: bool

text \<open>
  The fields of the \<open>Logger\<close> struct. Durations are nanoseconds. \<open>int\<close> and \<open>int64\<close>
  fields are integers, and the wrap-around of 64-bit arithmetic is written out where
  the code computes with them; the atomic \<open>uint64\<close> counters are 64-bit words. A
  pointer that may be nil is an option: the current file is a file handle, the ring is an
  address in the store of rings. \<open>ErrorCallback\<close> says whether a callback is set.
  \<open>timeCache\<close> says whether the time cache exists, and the two \<open>sync.Once\<close> fields
  whether their function has run.
\<close>

record Logger =
  Filename :: string
  MaxSize :: int
  MaxBackups :: int
  MaxAge :: int
  MaxFileAge :: int
  LocalTime :: bool
  Compress :: bool
  Checksum :: bool
  Async :: bool
  MaxSizeStr :: string
  MaxAgeStr :: string
  ErrorCallback :: bool
  FileMode :: nat
  RetryCount :: int
  RetryDelay :: int
  BufferSize :: int
  BackpressurePolicy :: string
  FlushInterval :: int
  AdaptiveFlush :: bool
  currentFile :: "nat option"
  bytesWritten :: "64 word"
  rotationSeq :: "64 word"
  rotationFlag :: bool
  fileCreated :: int
  lbuffer :: "nat option"
  consumer :: "MPSCConsumer option"
  writeCount :: "64 word"
  contentionCount :: "64 word"
  totalLatency :: "64 word"
  lastLatency :: "64 word"
  droppedCount :: "64 word"
  bgWorkers :: "BackgroundWorkers option"
  timeCache :: bool
  timeCacheOnce :: bool
  closeOnce :: bool
  maxSizeBytes :: int

subsection \<open>Adaptive mode selection\<close>

definition shouldScaleToMPSC :: "Logger \<Rightarrow> bool" where
  "shouldScaleToMPSC l =
     (if writeCount l < 100 then False
      else (let avgLatency = totalLatency l div writeCount l
            in if contentionCount l > 0 \<and> writeCount l > 1000 then True
               else if avgLatency > 1000000 then True
               else if lastLatency l > 5000000 then True
               else (let contentionRatio =
                           float64 (float64_of_uint64 (contentionCount l)
                                    / float64_of_uint64 (writeCount l))
                     in if contentionRatio > float64 (1 / 10) then True else False)))"

section \<open>The environment: files, clock and error callback\<close>

text \<open>
  What the Logger does outside its own fields is made explicit in a \<open>world\<close>:
  \<^item> the file system: the directory entries (\<open>names\<close>, from a path to a file), the
    bytes of every file (\<open>content\<close>) and the open file handles (\<open>handles\<close>, from a
    handle to its file; a closed handle has no file);
  \<^item> \<open>faults\<close>: whether each of the coming system calls fails, in order. \<open>None\<close> lets
    the call succeed, \<open>Some (msg, n)\<close> makes it fail with the message \<open>msg\<close>, a write after
    \<open>n\<close> bytes. When the list is used up no call fails. Every behaviour of the file
    system is given by some such list;
  \<^item> the clock: \<open>now\<close> in nanoseconds since the epoch, and \<open>ticks\<close>, by how much the
    clock has moved on at each of the coming readings; \<open>zone\<close> is the offset of the
    local time zone in seconds at a given second;
  \<^item> \<open>reported\<close>: the calls of \<open>ErrorCallback\<close> so far;
  \<^item> \<open>rings\<close>: the store of ring buffers, by address, and \<open>avail_slots\<close>, the number
    of slots memory can hold when a ring is allocated;
  \<^item> \<open>windows\<close>: whether \<open>runtime.GOOS\<close> is \<open>windows\<close>;
  \<^item> the functions of the package \<open>path/filepath\<close> that the Logger calls, which depend
    on the operating system and the working directory.
\<close>

type_synonym fault = "(string \<times> nat) option"

record world =
  names :: "string \<Rightarrow> nat option"
  content :: "nat \<Rightarrow> bytes"
  nfiles :: nat
  handles :: "nat \<Rightarrow> nat option"
  nhandles :: nat
  faults :: "fault list"
  now :: int
  ticks :: "nat list"
  zone :: "int \<Rightarrow> int"
  reported :: "(string \<times> error) list"
  rings :: "nat \<Rightarrow> ringBuffer"
  nrings :: nat
  avail_slots :: nat
  windows :: bool
  filepath_Abs :: "string \<Rightarrow> error + string"
  filepath_Dir :: "string \<Rightarrow> string"
  filepath_Base :: "string \<Rightarrow> string"
  filepath_Join :: "string \<Rightarrow> string \<Rightarrow> string"

definition take_fault :: "world \<Rightarrow> fault \<times> world" where
  "take_fault w = (case faults w of [] \<Rightarrow> (None, w) | f # fs \<Rightarrow> (f, w\<lparr>faults := fs\<rparr>))"

subsection \<open>System calls\<close>

text \<open>
  \<open>os.OpenFile\<close> with \<open>O_CREATE|O_WRONLY|O_APPEND\<close>: the file is created empty when the
  path has none, and a new handle on it is returned.
\<close>

definition os_OpenFile :: "string \<Rightarrow> world \<Rightarrow> (error + nat) \<times> world" where
  "os_OpenFile path w =
     (case take_fault w of
        (Some (msg, n), w1) \<Rightarrow> (Inl (ErrOS msg), w1)
      | (None, w1) \<Rightarrow>
          (let w2 = (case names w1 path of
                       Some f \<Rightarrow> w1
                     | None \<Rightarrow> w1\<lparr>names := (names w1)(path \<mapsto> nfiles w1),
                                   content := (content w1)(nfiles w1 := []),
                                   nfiles := nfiles w1 + 1\<rparr>);
               h = nhandles w2
           in (Inr h, w2\<lparr>handles := (handles w2)(h := names w2 path), nhandles := h + 1\<rparr>)))"

text \<open>
  \<open>File.Write\<close> appends. On a closed handle it fails with \<open>os.ErrClosed\<close> and writes
  nothing; a failing write may have written a part of the bytes.
\<close>

definition file_Write :: "nat \<Rightarrow> bytes \<Rightarrow> world \<Rightarrow> (int \<times> error option) \<times> world" where
  "file_Write h data w =
     (case handles w h of
        None \<Rightarrow> ((0, Some ErrClosed), w)
      | Some f \<Rightarrow>
          (case take_fault w of
             (Some (msg, n), w1) \<Rightarrow>
               ((int (min n (length data)), Some (ErrOS msg)),
                w1\<lparr>content := (content w1)(f := content w1 f @ take n data)\<rparr>)
           | (None, w1) \<Rightarrow>
               ((int (length data), None),
                w1\<lparr>content := (content w1)(f := content w1 f @ data)\<rparr>)))"

text \<open>
  \<open>File.Close\<close>: a closed handle fails with \<open>os.ErrClosed\<close>; otherwise the handle is
  closed, also when the system call reports an error.
\<close>

definition file_Close :: "nat \<Rightarrow> world \<Rightarrow> error option \<times> world" where
  "file_Close h w =
     (case handles w h of
        None \<Rightarrow> (Some ErrClosed, w)
      | Some f \<Rightarrow>
          (case take_fault w of
             (flt, w1) \<Rightarrow>
               (case flt of None \<Rightarrow> None | Some (msg, n) \<Rightarrow> Some (ErrOS msg),
                w1\<lparr>handles := (handles w1)(h := None)\<rparr>)))"

definition file_Stat :: "nat \<Rightarrow> world \<Rightarrow> (error + int) \<times> world" where
  "file_Stat h w =
     (case handles w h of
        None \<Rightarrow> (Inl ErrClosed, w)
      | Some f \<Rightarrow>
          (case take_fault w of
             (Some (msg, n), w1) \<Rightarrow> (Inl (ErrOS msg), w1)
           | (None, w1) \<Rightarrow> (Inr (int (length (content w1 f))), w1)))"

text \<open>\<open>os.Rename\<close> replaces the target when it exists.\<close>

definition os_Rename :: "string \<Rightarrow> string \<Rightarrow> world \<Rightarrow> error option \<times> world" where
  "os_Rename oldname newname w =
     (case take_fault w of
        (Some (msg, n), w1) \<Rightarrow> (Some (ErrOS msg), w1)
      | (None, w1) \<Rightarrow>
          (case names w1 oldname of
             None \<Rightarrow> (Some (ErrOS ''no such file or directory''), w1)
           | Some f \<Rightarrow>
               (None, w1\<lparr>names := ((names w1)(oldname := None))(newname \<mapsto> f)\<rparr>)))"

text \<open>Directories themselves are not modelled: \<open>os.MkdirAll\<close> succeeds or fails.\<close>

definition os_MkdirAll :: "string \<Rightarrow> world \<Rightarrow> error option \<times> world" where
  "os_MkdirAll dir w =
     (case take_fault w of
        (Some (msg, n), w1) \<Rightarrow> (Some (ErrOS msg), w1)
      | (None, w1) \<Rightarrow> (None, w1))"

subsection \<open>Time\<close>

definition Millisecond :: int where
  "Millisecond = 1000000"

definition Second :: int where
  "Second = 1000000000"

text \<open>
  A reading of the clock, by \<open>time.Now\<close> or through the time cache: the clock has moved
  on by the next tick.
\<close>

definition read_clock :: "world \<Rightarrow> int \<times> world" where
  "read_clock w =
     (case ticks w of
        [] \<Rightarrow> (now w, w)
      | d # ds \<Rightarrow> (now w + int d, w\<lparr>now := now w + int d, ticks := ds\<rparr>))"

definition time_Sleep :: "int \<Rightarrow> world \<Rightarrow> world" where
  "time_Sleep d w = w\<lparr>now := now w + max 0 d\<rparr>"

text \<open>A difference of two times is a \<open>Duration\<close>; it saturates at the ends of \<open>int64\<close>.\<close>

definition sat64 :: "int \<Rightarrow> int" where
  "sat64 x = max (- (2 ^ 63)) (min (2 ^ 63 - 1) x)"

text \<open>
  \<open>Time.Format\<close> with the layout \<open>2006-01-02-15-04-05\<close>: the calendar date and the time
  of the day of a number of seconds since the epoch, every field in decimal with leading
  zeros.
\<close>

fun show_nat :: "nat \<Rightarrow> string" where
  "show_nat n = (if n < 10 then [char_of (48 + n)] else show_nat (n div 10) @ [char_of (48 + n mod 10)])"

declare show_nat.simps [simp del]

definition pad :: "nat \<Rightarrow> nat \<Rightarrow> string" where
  "pad k n = replicate (k - length (show_nat n)) CHR ''0'' @ show_nat n"

definition civil_from_days :: "int \<Rightarrow> int \<times> int \<times> int" where
  "civil_from_days days =
     (let z = days + 719468;
          era = z div 146097;
          doe = z - era * 146097;
          yoe = (doe - doe div 1460 + doe div 36524 - doe div 146096) div 365;
          y = yoe + era * 400;
          doy = doe - (365 * yoe + yoe div 4 - yoe div 100);
          mp = (5 * doy + 2) div 153;
          d = doy - (153 * mp + 2) div 5 + 1;
          m = (if mp < 10 then mp + 3 else mp - 9)
      in (if m \<le> 2 then y + 1 else y, m, d))"

definition format_stamp :: "int \<Rightarrow> string" where
  "format_stamp secs =
     (case civil_from_days (secs div 86400) of
        (y, m, d) \<Rightarrow>
          (let r = secs mod 86400
           in pad 4 (nat y) @ ''-'' @ pad 2 (nat m) @ ''-'' @ pad 2 (nat d) @ ''-''
              @ pad 2 (nat (r div 3600)) @ ''-'' @ pad 2 (nat (r mod 3600 div 60)) @ ''-''
              @ pad 2 (nat (r mod 60))))"

section \<open>Constructor\<close>

text \<open>The fields of \<open>LoggerConfig\<close>; each is named after the field of the Go struct.\<close>

record LoggerConfig =
  cfgFilename :: string
  cfgMaxSize :: int
  cfgMaxBackups :: int
  cfgMaxSizeStr :: string
  cfgMaxAgeStr :: string
  cfgMaxAge :: int
  cfgMaxFileAge :: int
  cfgLocalTime :: bool
  cfgCompress :: bool
  cfgChecksum :: bool
  cfgAsync :: bool
  cfgErrorCallback :: bool
  cfgFileMode :: nat
  cfgRetryCount :: int
  cfgRetryDelay :: int
  cfgBufferSize :: int
  cfgBackpressurePolicy :: string
  cfgFlushInterval :: int
  cfgAdaptiveFlush :: bool

text \<open>The Logger with every field at its zero value.\<close>

definition zeroLogger :: Logger where
  "zeroLogger =
     \<lparr>Filename = [], MaxSize = 0, MaxBackups = 0, MaxAge = 0, MaxFileAge = 0,
      LocalTime = False, Compress = False, Checksum = False, Async = False,
      MaxSizeStr = [], MaxAgeStr = [], ErrorCallback = False, FileMode = 0,
      RetryCount = 0, RetryDelay = 0, BufferSize = 0, BackpressurePolicy = [],
      FlushInterval = 0, AdaptiveFlush = False, currentFile = None, bytesWritten = 0,
      rotationSeq = 0, rotationFlag = False, fileCreated = 0, lbuffer = None,
      consumer = None, writeCount = 0, contentionCount = 0, totalLatency = 0,
      lastLatency = 0, droppedCount = 0, bgWorkers = None, timeCache = False,
      timeCacheOnce = False, closeOnce = False, maxSizeBytes = 0\<rparr>"

text \<open>A Logger after 100 writes that took 100000099 ns in all.\<close>

definition slow_logger :: Logger where
  "slow_logger = zeroLogger\<lparr>writeCount := 100, totalLatency := 100000099\<rparr>"

text \<open>
  \<open>NewWithConfig\<close>. The argument is a pointer, \<open>None\<close> when nil. The struct literal
  copies fourteen fields of the configuration; \<open>FileMode\<close>, \<open>RetryCount\<close>,
  \<open>RetryDelay\<close>, \<open>BufferSize\<close> and \<open>FlushInterval\<close> are not copied and get their
  defaults.
\<close>

definition NewWithConfig :: "LoggerConfig option \<Rightarrow> error + Logger" where
  "NewWithConfig config =
     (case config of
        None \<Rightarrow> Inl ErrConfigNil
      | Some c \<Rightarrow>
          if cfgFilename c = [] then Inl ErrEmptyFilename
          else (let l0 = zeroLogger\<lparr>Filename := cfgFilename c, MaxSize := cfgMaxSize c,
                           MaxBackups := cfgMaxBackups c, MaxAge := cfgMaxAge c,
                           MaxFileAge := cfgMaxFileAge c, LocalTime := cfgLocalTime c,
                           Compress := cfgCompress c, Checksum := cfgChecksum c,
                           Async := cfgAsync c, MaxSizeStr := cfgMaxSizeStr c,
                           MaxAgeStr := cfgMaxAgeStr c, ErrorCallback := cfgErrorCallback c,
                           BackpressurePolicy := cfgBackpressurePolicy c,
                           AdaptiveFlush := cfgAdaptiveFlush c\<rparr>;
                    l1 = (if FileMode l0 = 0 then l0\<lparr>FileMode := 420\<rparr> else l0);
                    l2 = (if RetryCount l1 = 0 then l1\<lparr>RetryCount := 3\<rparr> else l1);
                    l3 = (if RetryDelay l2 = 0 then l2\<lparr>RetryDelay := 10 * Millisecond\<rparr> else l2);
                    l4 = (if BufferSize l3 = 0 then l3\<lparr>BufferSize := 1024\<rparr> else l3);
                    l5 = (if BackpressurePolicy l4 = [] then l4\<lparr>BackpressurePolicy := ''fallback''\<rparr>
                          else l4);
                    l6 = (if FlushInterval l5 = 0 then l5\<lparr>FlushInterval := 1 * Millisecond\<rparr> else l5)
                in if MaxAge l6 > 0 \<and> MaxAgeStr l6 \<noteq> [] then Inl ErrBothMaxAge
                   else if MaxAgeStr l6 \<noteq> []
                   then (case ParseDuration (MaxAgeStr l6) of
                           Inl err \<Rightarrow> Inl (ErrInvalidMaxAgeStr err)
                         | Inr duration \<Rightarrow> Inr (l6\<lparr>MaxAge := duration, timeCache := True\<rparr>))
                   else Inr (l6\<lparr>timeCache := True\<rparr>)))"

section \<open>File initialisation and rotation (rotation.go)\<close>

definition reportError :: "string \<Rightarrow> error \<Rightarrow> Logger \<Rightarrow> world \<Rightarrow> world" where
  "reportError operation err l w =
     (if ErrorCallback l then w\<lparr>reported := reported w @ [(operation, err)]\<rparr> else w)"

text \<open>
  \<open>RetryFileOperation\<close>: the operation is tried up to \<open>retryCount\<close> times, with a pause
  between two attempts, and the error of the last attempt is wrapped. \<open>attempts\<close> is
  the loop, counting the attempts that are left.
\<close>

fun attempts :: "(world \<Rightarrow> (error + 'a) \<times> world) \<Rightarrow> nat \<Rightarrow> int \<Rightarrow> world \<Rightarrow> (error + 'a) \<times> world" where
  "attempts operation 0 retryDelay w = operation w"
| "attempts operation (Suc 0) retryDelay w = operation w"
| "attempts operation (Suc (Suc k)) retryDelay w =
     (case operation w of
        (Inr a, w1) \<Rightarrow> (Inr a, w1)
      | (Inl e, w1) \<Rightarrow> attempts operation (Suc k) retryDelay (time_Sleep retryDelay w1))"

definition RetryFileOperation ::
    "(world \<Rightarrow> (error + 'a) \<times> world) \<Rightarrow> int \<Rightarrow> int \<Rightarrow> world \<Rightarrow> (error + 'a) \<times> world" where
  "RetryFileOperation operation retryCount0 retryDelay0 w =
     (let retryCount = (if retryCount0 \<le> 0 then 3 else retryCount0);
          retryDelay = (if retryDelay0 \<le> 0 then 10 * Millisecond else retryDelay0)
      in case attempts operation (nat retryCount) retryDelay w of
           (Inr a, w1) \<Rightarrow> (Inr a, w1)
         | (Inl lastErr, w1) \<Rightarrow> (Inl (ErrRetries retryCount lastErr), w1))"

text \<open>An operation that returns only an error, as one that returns no value.\<close>

definition as_op :: "(world \<Rightarrow> error option \<times> world) \<Rightarrow> world \<Rightarrow> (error + unit) \<times> world" where
  "as_op f w = (case f w of (None, w1) \<Rightarrow> (Inr (), w1) | (Some e, w1) \<Rightarrow> (Inl e, w1))"

definition SanitizeFilename :: "bool \<Rightarrow> string \<Rightarrow> string" where
  "SanitizeFilename on_windows filename =
     (if on_windows
      then map (\<lambda>c. if c \<in> set ''<>:\"|?*'' \<or> (of_char c :: nat) < 32 then CHR ''_'' else c) filename
      else map (\<lambda>c. if (of_char c :: nat) = 0 then CHR ''_'' else c) filename)"

definition ValidatePathLength :: "string \<Rightarrow> world \<Rightarrow> error option" where
  "ValidatePathLength path w =
     (case filepath_Abs w path of
        Inl err \<Rightarrow> Some (ErrWrap ''invalid path'' err)
      | Inr absPath \<Rightarrow>
          if windows w then (if length absPath > 260 then Some (ErrPathTooLong (length absPath)) else None)
          else (if length absPath > 4096 then Some (ErrPathTooLong (length absPath)) else None))"

definition initSizeConfig :: "Logger \<Rightarrow> world \<Rightarrow> Logger \<times> world" where
  "initSizeConfig l w =
     (if maxSizeBytes l \<noteq> 0 then (l, w)
      else if MaxSizeStr l \<noteq> []
      then (case ParseSize (MaxSizeStr l) of
              Inr sz \<Rightarrow> (l\<lparr>maxSizeBytes := sz\<rparr>, w)
            | Inl err \<Rightarrow> (l, reportError ''size_parse'' (ErrInvalidMaxSizeStr err) l w))
      else if MaxSize l > 0 then (l\<lparr>maxSizeBytes := wrap64 (MaxSize l * 1024 * 1024)\<rparr>, w)
      else (l, w))"

definition getRetryConfig :: "Logger \<Rightarrow> int \<times> int \<times> nat" where
  "getRetryConfig l =
     (if RetryCount l = 0 then 3 else RetryCount l,
      if RetryDelay l = 0 then 10 * Millisecond else RetryDelay l,
      if FileMode l = 0 then 420 else FileMode l)"

definition validateAndSanitizePath :: "Logger \<Rightarrow> world \<Rightarrow> error + string" where
  "validateAndSanitizePath l w =
     (case ValidatePathLength (Filename l) w of
        Some err \<Rightarrow> Inl (ErrWrap ''invalid log file path'' err)
      | None \<Rightarrow>
          Inr (filepath_Join w (filepath_Dir w (Filename l))
                 (SanitizeFilename (windows w) (filepath_Base w (Filename l)))))"

definition createLogDirectory :: "string \<Rightarrow> int \<Rightarrow> int \<Rightarrow> Logger \<Rightarrow> world \<Rightarrow> error option \<times> world" where
  "createLogDirectory sanitizedPath retryCount retryDelay l w =
     (let dir = filepath_Dir w sanitizedPath
      in if dir = ''.'' then (None, w)
         else (case RetryFileOperation (as_op (os_MkdirAll dir)) retryCount retryDelay w of
                 (Inr u, w1) \<Rightarrow> (None, w1)
               | (Inl err, w1) \<Rightarrow>
                   (Some (ErrWrap ''failed to create log directory'' err),
                    reportError ''directory_creation''
                      (ErrWrap ''failed to create log directory'' err) l w1)))"

definition openLogFile :: "string \<Rightarrow> int \<Rightarrow> int \<Rightarrow> Logger \<Rightarrow> world \<Rightarrow> (error + nat) \<times> world" where
  "openLogFile sanitizedPath retryCount retryDelay l w =
     (case RetryFileOperation (os_OpenFile sanitizedPath) retryCount retryDelay w of
        (Inr file, w1) \<Rightarrow> (Inr file, w1)
      | (Inl err, w1) \<Rightarrow>
          (Inl (ErrWrap ''failed to open log file'' err),
           reportError ''file_open'' (ErrWrap ''failed to open log file'' err) l w1))"

definition initFileState :: "nat \<Rightarrow> string \<Rightarrow> Logger \<Rightarrow> world \<Rightarrow> error option \<times> Logger \<times> world" where
  "initFileState file sanitizedPath l w =
     (case file_Stat file w of
        (Inl err, w1) \<Rightarrow>
          (case file_Close file w1 of
             (ce, w2) \<Rightarrow>
               (Some (ErrWrap ''failed to stat log file'' err), l,
                reportError ''file_stat'' (ErrWrap ''failed to stat log file'' err) l w2))
      | (Inr size0, w1) \<Rightarrow>
          (let sz = (if size0 < 0 then 0 else size0)
           in case read_clock w1 of
                (t, w2) \<Rightarrow>
                  (None,
                   l\<lparr>Filename := sanitizedPath, currentFile := Some file,
                     bytesWritten := of_int sz, fileCreated := t div Second\<rparr>,
                   w2)))"

definition initFile :: "Logger \<Rightarrow> world \<Rightarrow> error option \<times> Logger \<times> world" where
  "initFile l0 w0 =
     (case initSizeConfig l0 w0 of
        (l, w) \<Rightarrow>
          (case getRetryConfig l of
             (retryCount, retryDelay, fileMode) \<Rightarrow>
               (case validateAndSanitizePath l w of
                  Inl err \<Rightarrow> (Some err, l, w)
                | Inr sanitizedPath \<Rightarrow>
                    (case createLogDirectory sanitizedPath retryCount retryDelay l w of
                       (Some err, w1) \<Rightarrow> (Some err, l, w1)
                     | (None, w1) \<Rightarrow>
                         (case openLogFile sanitizedPath retryCount retryDelay l w1 of
                            (Inl err, w2) \<Rightarrow> (Some err, l, w2)
                          | (Inr file, w2) \<Rightarrow> initFileState file sanitizedPath l w2)))))"

text \<open>
  A configuration with every field at its zero value but the file name, and one that
  sets both size fields, the string to a decimal value, which is no size.
\<close>

definition plain_config :: LoggerConfig where
  "plain_config =
     \<lparr>cfgFilename = ''app.log'', cfgMaxSize = 0, cfgMaxBackups = 0, cfgMaxSizeStr = [],
      cfgMaxAgeStr = [], cfgMaxAge = 0, cfgMaxFileAge = 0, cfgLocalTime = False,
      cfgCompress = False, cfgChecksum = False, cfgAsync = False, cfgErrorCallback = True,
      cfgFileMode = 0, cfgRetryCount = 0, cfgRetryDelay = 0, cfgBufferSize = 0,
      cfgBackpressurePolicy = [], cfgFlushInterval = 0, cfgAdaptiveFlush = False\<rparr>"

definition bad_size_config :: LoggerConfig where
  "bad_size_config = plain_config\<lparr>cfgMaxSize := 10, cfgMaxSizeStr := ''1.5KB''\<rparr>"

subsection \<open>Rotation\<close>

text \<open>
  \<open>generateBackupName\<close>: the file name, a dot, and the time of the clock in whole
  seconds, in UTC or in the local zone.
\<close>

definition generateBackupName :: "Logger \<Rightarrow> world \<Rightarrow> string \<times> world" where
  "generateBackupName l w =
     (case read_clock w of
        (t, w1) \<Rightarrow>
          (let secs = t div Second;
               shown = (if LocalTime l then secs + zone w1 secs else secs)
           in (Filename l @ ''.'' @ format_stamp shown, w1)))"

definition closeAndRotateFile ::
    "nat \<Rightarrow> string \<Rightarrow> int \<Rightarrow> int \<Rightarrow> Logger \<Rightarrow> world \<Rightarrow> error option \<times> Logger \<times> world" where
  "closeAndRotateFile current backupName retryCount retryDelay l w =
     (case RetryFileOperation (as_op (file_Close current)) retryCount retryDelay w of
        (Inl err, w1) \<Rightarrow> (Some (ErrWrap ''failed to close current file'' err), l, w1)
      | (Inr u, w1) \<Rightarrow>
          (case RetryFileOperation (as_op (os_Rename (Filename l) backupName))
                  retryCount retryDelay w1 of
             (Inl err, w2) \<Rightarrow> (Some (ErrWrap ''failed to rename log file'' err), l, w2)
           | (Inr u2, w2) \<Rightarrow>
               (case RetryFileOperation (os_OpenFile (Filename l)) retryCount retryDelay
                       (time_Sleep retryDelay w2) of
                  (Inl err, w3) \<Rightarrow> (Some (ErrWrap ''failed to create new log file'' err), l, w3)
                | (Inr newFile, w3) \<Rightarrow> (None, l\<lparr>currentFile := Some newFile\<rparr>, w3))))"

definition updateRotationState :: "Logger \<Rightarrow> world \<Rightarrow> Logger \<times> world" where
  "updateRotationState l w =
     (case read_clock w of
        (t, w1) \<Rightarrow>
          (l\<lparr>bytesWritten := 0, fileCreated := t div Second, rotationSeq := rotationSeq l + 1\<rparr>,
           w1))"

text \<open>
  The workers take tasks from the queue on their own threads. What the Logger's
  operations do is to submit: a task is appended unless the pool is stopped or the
  queue holds 100 tasks.
\<close>

definition newBackgroundWorkers :: BackgroundWorkers where
  "newBackgroundWorkers = \<lparr>taskQueue = [], cancelled = False\<rparr>"

definition safeSubmitTask :: "BackgroundTask \<Rightarrow> Logger \<Rightarrow> Logger" where
  "safeSubmitTask task l =
     (case bgWorkers l of
        None \<Rightarrow> l
      | Some workers \<Rightarrow>
          if cancelled workers then l
          else if length (taskQueue workers) < 100
          then l\<lparr>bgWorkers := Some (workers\<lparr>taskQueue := taskQueue workers @ [task]\<rparr>)\<rparr>
          else l)"

definition scheduleBackgroundTasks :: "string \<Rightarrow> Logger \<Rightarrow> Logger" where
  "scheduleBackgroundTasks backupName l0 =
     (let l1 = (if bgWorkers l0 = None then l0\<lparr>bgWorkers := Some newBackgroundWorkers\<rparr> else l0);
          l2 = (if MaxBackups l1 > 0
                then safeSubmitTask \<lparr>TaskType = Cleanup, FilePath = []\<rparr> l1 else l1);
          l3 = (if Checksum l2
                then safeSubmitTask \<lparr>TaskType = Checksum_task, FilePath = backupName\<rparr> l2 else l2)
      in if Compress l3
         then safeSubmitTask \<lparr>TaskType = Compress_task, FilePath = backupName\<rparr> l3 else l3)"

definition performRotation :: "Logger \<Rightarrow> world \<Rightarrow> error option \<times> Logger \<times> world" where
  "performRotation l w =
     (case currentFile l of
        None \<Rightarrow> (Some ErrNoFileToRotate, l, w)
      | Some current \<Rightarrow>
          (case generateBackupName l w of
             (backupName, w1) \<Rightarrow>
               (case getRetryConfig l of
                  (retryCount, retryDelay, fileMode) \<Rightarrow>
                    (case closeAndRotateFile current backupName retryCount retryDelay l w1 of
                       (Some err, l2, w2) \<Rightarrow> (Some err, l2, w2)
                     | (None, l2, w2) \<Rightarrow>
                         (case updateRotationState l2 w2 of
                            (l3, w3) \<Rightarrow> (None, scheduleBackgroundTasks backupName l3, w3))))))"

text \<open>
  \<open>triggerRotation\<close>: the compare-and-swap on the rotation flag, the rotation, the
  report of its error, and the deferred reset of the flag.
\<close>

definition triggerRotation :: "Logger \<Rightarrow> world \<Rightarrow> Logger \<times> world" where
  "triggerRotation l w =
     (if rotationFlag l then (l, w)
      else (case performRotation (l\<lparr>rotationFlag := True\<rparr>) w of
              (err, l1, w1) \<Rightarrow>
                (l1\<lparr>rotationFlag := False\<rparr>,
                 case err of None \<Rightarrow> w1 | Some e \<Rightarrow> reportError ''rotation'' e l1 w1)))"

definition Rotate :: "Logger \<Rightarrow> world \<Rightarrow> error option \<times> Logger \<times> world" where
  "Rotate l w = (case triggerRotation l w of (l1, w1) \<Rightarrow> (None, l1, w1))"

definition shouldRotate :: "64 word \<Rightarrow> Logger \<Rightarrow> world \<Rightarrow> bool \<times> Logger \<times> world" where
  "shouldRotate currentSize l0 w =
     (let l = (if maxSizeBytes l0 = 0
               then (if MaxSizeStr l0 \<noteq> []
                     then (case ParseSize (MaxSizeStr l0) of
                             Inr sz \<Rightarrow> l0\<lparr>maxSizeBytes := sz\<rparr>
                           | Inl err \<Rightarrow> l0)
                     else if MaxSize l0 > 0
                     then l0\<lparr>maxSizeBytes := wrap64 (MaxSize l0 * 1024 * 1024)\<rparr>
                     else l0)
               else l0)
      in if maxSizeBytes l > 0 \<and> currentSize \<ge> of_int (maxSizeBytes l) then (True, l, w)
         else (let maxAge =
                     (if MaxAgeStr l \<noteq> []
                      then (case ParseDuration (MaxAgeStr l) of
                              Inr duration \<Rightarrow> duration
                            | Inl err \<Rightarrow> 0)
                      else if MaxAge l > 0 then MaxAge l else 0)
               in if maxAge > 0 \<and> fileCreated l > 0
                  then (case read_clock w of
                          (t, w1) \<Rightarrow>
                            (sat64 (t - fileCreated l * Second) \<ge> maxAge, l, w1))
                  else (False, l, w)))"

section \<open>Writing (lethe.go)\<close>

text \<open>
  \<open>writeSync\<close>. The body is what runs between the registration of the deferred
  function and the return; the deferred function then records the latency, on every
  path.
\<close>

definition writeSync_body :: "bytes \<Rightarrow> Logger \<Rightarrow> world \<Rightarrow> (int \<times> error option) \<times> Logger \<times> world" where
  "writeSync_body data l0 w0 =
     (case (if currentFile l0 = None then initFile l0 w0 else (None, l0, w0)) of
        (Some err, l, w) \<Rightarrow> ((0, Some err), l, w)
      | (None, l, w) \<Rightarrow>
          (case currentFile l of
             None \<Rightarrow> ((0, Some ErrNoCurrentFile), l, w)
           | Some file \<Rightarrow>
               (let l1 = (if rotationFlag l then l\<lparr>contentionCount := contentionCount l + 1\<rparr> else l)
                in case file_Write file data w of
                     ((n, Some err), w1) \<Rightarrow> ((n, Some err), l1, w1)
                   | ((n0, None), w1) \<Rightarrow>
                       (let n = (if n0 < 0 then 0 else n0);
                            newSize = bytesWritten l1 + of_int n;
                            l2 = l1\<lparr>bytesWritten := newSize\<rparr>
                        in case shouldRotate newSize l2 w1 of
                             (True, l3, w2) \<Rightarrow>
                               (case triggerRotation l3 w2 of (l4, w3) \<Rightarrow> ((n, None), l4, w3))
                           | (False, l3, w2) \<Rightarrow> ((n, None), l3, w2)))))"

definition writeSync :: "bytes \<Rightarrow> Logger \<Rightarrow> world \<Rightarrow> (int \<times> error option) \<times> Logger \<times> world" where
  "writeSync data l0 w0 =
     (let l = (if timeCacheOnce l0 then l0 else l0\<lparr>timeCache := True, timeCacheOnce := True\<rparr>)
      in case read_clock w0 of
           (t0, w1) \<Rightarrow>
             (case writeSync_body data l w1 of
                (res, l1, w2) \<Rightarrow>
                  (case read_clock w2 of
                     (t1, w3) \<Rightarrow>
                       (let latencyNs = sat64 (t1 - t0);
                            latency = (if latencyNs < 0 then 0 else latencyNs)
                        in (res,
                            l1\<lparr>lastLatency := of_int latency,
                               totalLatency := totalLatency l1 + of_int latency\<rparr>,
                            w3)))))"

subsection \<open>The asynchronous path\<close>

text \<open>
  The operations below use the ring through its address in the store. A run-time panic
  inside an operation is the result \<open>None\<close>.
\<close>

definition alloc_ring :: "ringBuffer \<Rightarrow> world \<Rightarrow> nat \<times> world" where
  "alloc_ring rb w = (nrings w, w\<lparr>rings := (rings w)(nrings w := rb), nrings := nrings w + 1\<rparr>)"

definition newMPSCConsumer :: "nat \<Rightarrow> MPSCConsumer" where
  "newMPSCConsumer a = \<lparr>cbuffer = a, cstopped = False\<rparr>"

definition initMPSC :: "Logger \<Rightarrow> world \<Rightarrow> (error option \<times> Logger \<times> world) option" where
  "initMPSC l w =
     (let bufferSize = (if BufferSize l \<le> 0 then 1024 else BufferSize l)
      in case newRingBuffer (avail_slots w) (of_int bufferSize) of
           None \<Rightarrow> None
         | Some rb \<Rightarrow>
             (case alloc_ring rb w of
                (a, w1) \<Rightarrow>
                  if lbuffer l \<noteq> None then Some (None, l, w1)
                  else (let l1 = l\<lparr>lbuffer := Some a\<rparr>
                        in case (if currentFile l1 = None then initFile l1 w1 else (None, l1, w1)) of
                             (Some err, l2, w2) \<Rightarrow> Some (Some err, l2, w2)
                           | (None, l2, w2) \<Rightarrow>
                               Some (None, l2\<lparr>consumer := Some (newMPSCConsumer a)\<rparr>, w2))))"

text \<open>
  \<open>tryAdaptiveResize\<close>: up to 100 payloads are moved from the current ring into a
  ring of twice the size (at most 16384 slots), which then replaces the current one in
  the Logger if that still is the current one.
\<close>

fun move_entries :: "nat \<Rightarrow> ringBuffer \<Rightarrow> ringBuffer \<Rightarrow> (bool \<times> ringBuffer \<times> ringBuffer) option" where
  "move_entries 0 cur new = Some (True, cur, new)"
| "move_entries (Suc k) cur new =
     (case pop cur of
        None \<Rightarrow> None
      | Some (None, cur1) \<Rightarrow> Some (True, cur1, new)
      | Some (Some data, cur1) \<Rightarrow>
          (case push new data of
             None \<Rightarrow> None
           | Some (False, new1) \<Rightarrow> Some (False, cur1, new1)
           | Some (True, new1) \<Rightarrow> move_entries k cur1 new1))"

definition tryAdaptiveResize :: "nat \<Rightarrow> Logger \<Rightarrow> world \<Rightarrow> (bool \<times> Logger \<times> world) option" where
  "tryAdaptiveResize a l w =
     (let currentSize = (of_nat (length (buffer (rings w a))) :: 64 word);
          maxSize = (16384 :: 64 word)
      in if currentSize \<ge> maxSize then Some (False, l, w)
         else (let newSize = (if currentSize * 2 > maxSize then maxSize else currentSize * 2)
               in case newRingBuffer (avail_slots w) newSize of
                    None \<Rightarrow> None
                  | Some newBuffer \<Rightarrow>
                      (case move_entries 100 (rings w a) newBuffer of
                         None \<Rightarrow> None
                       | Some (False, cur1, new1) \<Rightarrow>
                           Some (False, l, w\<lparr>rings := (rings w)(a := cur1)\<rparr>)
                       | Some (True, cur1, new1) \<Rightarrow>
                           (case alloc_ring new1 (w\<lparr>rings := (rings w)(a := cur1)\<rparr>) of
                              (b, w1) \<Rightarrow>
                                if lbuffer l = Some a then Some (True, l\<lparr>lbuffer := Some b\<rparr>, w1)
                                else Some (False, l, w1)))))"

text \<open>
  \<open>writeAsync\<close> and \<open>writeAsyncOwned\<close> differ in the push they use. \<open>ring_full\<close>
  is what they do when the push has reported the ring full.
\<close>

definition ring_full ::
    "(ringBuffer \<Rightarrow> bytes \<Rightarrow> (bool \<times> ringBuffer) option) \<Rightarrow> nat \<Rightarrow> bytes \<Rightarrow> Logger \<Rightarrow> world
      \<Rightarrow> ((int \<times> error option) \<times> Logger \<times> world) option" where
  "ring_full pushf a data l0 w =
     (let l = l0\<lparr>contentionCount := contentionCount l0 + 1\<rparr>;
          policy = (if BackpressurePolicy l = [] then ''fallback'' else BackpressurePolicy l)
      in if policy = ''drop''
         then Some ((int (length data), None), l\<lparr>droppedCount := droppedCount l + 1\<rparr>, w)
         else if policy = ''adaptive''
         then (case tryAdaptiveResize a l w of
                 None \<Rightarrow> None
               | Some (True, l1, w1) \<Rightarrow>
                   (case pushf (rings w1 a) data of
                      None \<Rightarrow> None
                    | Some (True, rb) \<Rightarrow>
                        Some ((int (length data), None), l1, w1\<lparr>rings := (rings w1)(a := rb)\<rparr>)
                    | Some (False, rb) \<Rightarrow> Some (writeSync data l1 w1))
               | Some (False, l1, w1) \<Rightarrow> Some (writeSync data l1 w1))
         else Some (writeSync data l w))"

definition write_async ::
    "(ringBuffer \<Rightarrow> bytes \<Rightarrow> (bool \<times> ringBuffer) option) \<Rightarrow> bytes \<Rightarrow> Logger \<Rightarrow> world
      \<Rightarrow> ((int \<times> error option) \<times> Logger \<times> world) option" where
  "write_async pushf data l0 w0 =
     (case (if lbuffer l0 = None then initMPSC l0 w0 else Some (None, l0, w0)) of
        None \<Rightarrow> None
      | Some (Some err, l, w) \<Rightarrow> Some (writeSync data l w)
      | Some (None, l, w) \<Rightarrow>
          (case lbuffer l of
             None \<Rightarrow> Some (writeSync data l w)
           | Some a \<Rightarrow>
               (case pushf (rings w a) data of
                  None \<Rightarrow> None
                | Some (True, rb) \<Rightarrow>
                    Some ((int (length data), None), l, w\<lparr>rings := (rings w)(a := rb)\<rparr>)
                | Some (False, rb) \<Rightarrow> ring_full pushf a data l w)))"

definition writeAsync :: "bytes \<Rightarrow> Logger \<Rightarrow> world \<Rightarrow> ((int \<times> error option) \<times> Logger \<times> world) option" where
  "writeAsync = write_async push"

definition writeAsyncOwned :: "bytes \<Rightarrow> Logger \<Rightarrow> world \<Rightarrow> ((int \<times> error option) \<times> Logger \<times> world) option" where
  "writeAsyncOwned = write_async pushOwned"

definition Write :: "bytes \<Rightarrow> Logger \<Rightarrow> world \<Rightarrow> ((int \<times> error option) \<times> Logger \<times> world) option" where
  "Write data l0 w =
     (let l = l0\<lparr>writeCount := writeCount l0 + 1\<rparr>
      in if Async l then writeAsync data l w
         else if shouldScaleToMPSC l then writeAsync data l w
         else Some (writeSync data l w))"

definition WriteOwned :: "bytes \<Rightarrow> Logger \<Rightarrow> world \<Rightarrow> ((int \<times> error option) \<times> Logger \<times> world) option" where
  "WriteOwned data l0 w =
     (let l = l0\<lparr>writeCount := writeCount l0 + 1\<rparr>
      in if Async l then writeAsyncOwned data l w
         else if shouldScaleToMPSC l then writeAsyncOwned data l w
         else Some (writeSync data l w))"

subsection \<open>The consumer and Close\<close>

definition writeToFile :: "bytes \<Rightarrow> Logger \<Rightarrow> world \<Rightarrow> Logger \<times> world" where
  "writeToFile data l w =
     (case currentFile l of
        None \<Rightarrow> (l, w)
      | Some file \<Rightarrow>
          (case file_Write file data w of
             ((n, Some err), w1) \<Rightarrow> (l, w1)
           | ((n0, None), w1) \<Rightarrow>
               (let n = (if n0 < 0 then 0 else n0);
                    newSize = bytesWritten l + of_int n;
                    l1 = l\<lparr>bytesWritten := newSize\<rparr>
                in case shouldRotate newSize l1 w1 of
                     (True, l2, w2) \<Rightarrow> triggerRotation l2 w2
                   | (False, l2, w2) \<Rightarrow> (l2, w2))))"

text \<open>
  \<open>flushAll\<close>: pop and write until the ring is empty. Each round takes at least one
  reserved slot, so the number of reserved slots, plus one for the round that finds the
  ring empty, bounds the rounds.
\<close>

fun flush_rounds :: "nat \<Rightarrow> nat \<Rightarrow> Logger \<Rightarrow> world \<Rightarrow> (int \<times> Logger \<times> world) option" where
  "flush_rounds 0 a l w = Some (0, l, w)"
| "flush_rounds (Suc k) a l w =
     (case pop (rings w a) of
        None \<Rightarrow> None
      | Some (None, rb) \<Rightarrow> Some (0, l, w\<lparr>rings := (rings w)(a := rb)\<rparr>)
      | Some (Some data, rb) \<Rightarrow>
          (case writeToFile data l (w\<lparr>rings := (rings w)(a := rb)\<rparr>) of
             (l1, w1) \<Rightarrow>
               (case flush_rounds k a l1 w1 of
                  None \<Rightarrow> None
                | Some (items, l2, w2) \<Rightarrow> Some (items + 1, l2, w2))))"

definition flushAll :: "nat \<Rightarrow> Logger \<Rightarrow> world \<Rightarrow> (int \<times> Logger \<times> world) option" where
  "flushAll a l w = flush_rounds (Suc (unat (tail (rings w a) - head (rings w a)))) a l w"

text \<open>
  \<open>MPSCConsumer.stop\<close> cancels the consumer and waits for it; the consumer flushes once
  more and ends.
\<close>

definition consumer_stop :: "MPSCConsumer \<Rightarrow> Logger \<Rightarrow> world \<Rightarrow> (Logger \<times> world) option" where
  "consumer_stop c l w =
     (if cstopped c then Some (l, w)
      else (case flushAll (cbuffer c) l w of
              None \<Rightarrow> None
            | Some (items, l1, w1) \<Rightarrow> Some (l1\<lparr>consumer := Some (c\<lparr>cstopped := True\<rparr>)\<rparr>, w1)))"

definition workers_stop :: "BackgroundWorkers \<Rightarrow> BackgroundWorkers" where
  "workers_stop workers = workers\<lparr>cancelled := True\<rparr>"

text \<open>
  \<open>Close\<close>: the function passed to \<open>closeOnce.Do\<close> runs in the first call only, and
  \<open>closeErr\<close> is a local variable of each call.
\<close>

definition Close :: "Logger \<Rightarrow> world \<Rightarrow> (error option \<times> Logger \<times> world) option" where
  "Close l0 w0 =
     (if closeOnce l0 then Some (None, l0, w0)
      else (let l = l0\<lparr>closeOnce := True\<rparr>
            in case (case consumer l of None \<Rightarrow> Some (l, w0) | Some c \<Rightarrow> consumer_stop c l w0) of
                 None \<Rightarrow> None
               | Some (l1, w1) \<Rightarrow>
                   (let l2 = (case bgWorkers l1 of
                                None \<Rightarrow> l1
                              | Some workers \<Rightarrow> l1\<lparr>bgWorkers := Some (workers_stop workers)\<rparr>)
                    in case currentFile l2 of
                         None \<Rightarrow> Some (None, l2, w1)
                       | Some file \<Rightarrow>
                           (case file_Close file w1 of
                              (closeErr, w2) \<Rightarrow> Some (closeErr, l2, w2)))))"

section \<open>Properties of the ring buffer\<close>

lemma Len64_bounds: "0 < n \<Longrightarrow> 2 ^ (Len64 n - 1) \<le> n \<and> n < 2 ^ Len64 n"
proof (induction n rule: Len64.induct)
  case (1 n)
  show ?case
  proof (cases "n div 2 = 0")
    case True
    with "1.prems" have "n = 1" by presburger
    then show ?thesis by (simp add: Len64.simps [of "Suc 0"] Len64.simps [of 0])
  next
    case False
    then have pos: "0 < n div 2" by simp
    from "1.IH" [OF _ pos] "1.prems"
    have ih: "2 ^ (Len64 (n div 2) - 1) \<le> n div 2" "n div 2 < 2 ^ Len64 (n div 2)"
      by auto
    have len: "Len64 n = Suc (Len64 (n div 2))"
      using "1.prems" by (simp add: Len64.simps [of n])
    have lpos: "0 < Len64 (n div 2)"
      using pos by (simp add: Len64.simps [of "n div 2"])
    then obtain k where k: "Len64 (n div 2) = Suc k"
      by (cases "Len64 (n div 2)") auto
    from ih k have "2 * 2 ^ k \<le> n" "n < 2 * 2 ^ Suc k" by auto
    then show ?thesis by (simp add: len k)
  qed
qed











text \<open>
  Above \<open>2^63\<close> the rounding itself overflows: the shift count is 64, the shifted value
  is 0, and the ring that is created has no slot.
\<close>

lemma newRingBuffer_overflow:
  "newRingBuffer avail (2 ^ 63 + 1) = Some (ring_with 0)"
proof -
  have "rounded_size (2 ^ 63 + 1) = 0"
    by (simp add: rounded_size_def nextPow2_def LeadingZeros64_def Len64.simps
        word_le_nat_alt word_less_nat_alt)
  then show ?thesis by (simp add: newRingBuffer_def Let_def)
qed

subsection \<open>The bounds of head and tail\<close>

lemma thread_ok_mono:
  "head rb \<le> head rb' \<Longrightarrow> tail rb \<le> tail rb' \<Longrightarrow> thread_ok rb th \<Longrightarrow> thread_ok rb' th"
  by (cases th) auto

lemma thread_step_inv:
  assumes inv: "unat (tail rb) \<le> k" "head rb \<le> tail rb"
      "unat (tail rb) - unat (head rb) \<le> length (buffer rb)" "thread_ok rb th"
    and k: "k < 2 ^ 64 - 1"
    and st: "thread_step rb th = (rb', th')"
  shows "unat (tail rb') \<le> Suc k \<and> head rb' \<le> tail rb'
       \<and> unat (tail rb') - unat (head rb') \<le> length (buffer rb')
       \<and> thread_ok rb' th' \<and> head rb \<le> head rb' \<and> tail rb \<le> tail rb'"
proof (cases th)
  case (PushCAS ow d t h)
  show ?thesis
  proof (cases "\<not> t - h \<ge> of_nat (length (buffer rb)) \<and> tail rb = t")
    case False
    with st PushCAS inv show ?thesis by (auto split: if_splits)
  next
    case True
    then have rb': "rb' = rb\<lparr>tail := t + 1\<rparr>" and th': "th' = PushStore ow d t"
      using st PushCAS by auto
    from True have t: "tail rb = t" by simp
    from inv(4) PushCAS have hh: "h \<le> head rb" by simp
    have tk: "unat t < 2 ^ 64 - 1" using inv(1) k t by simp
    then have t1: "unat (t + 1) = Suc (unat t)"
      by (simp add: unat_word_ariths)
    have hl: "unat h \<le> unat (head rb)" "unat (head rb) \<le> unat t"
      using hh inv(2) t by (simp_all add: word_le_nat_alt)
    then have "h \<le> t" by (simp add: word_le_nat_alt)
    then have sub: "unat (t - h) = unat t - unat h" by (rule unat_sub)
    from True have "t - h < of_nat (length (buffer rb))" by (simp add: not_le)
    then have "unat (t - h) < unat (of_nat (length (buffer rb)) :: 64 word)"
      by (simp add: word_less_nat_alt)
    also have "\<dots> \<le> length (buffer rb)" by (simp add: unat_of_nat)
    finally have "unat t - unat h < length (buffer rb)" using sub by simp
    with hl have "Suc (unat t) - unat (head rb) \<le> length (buffer rb)" by linarith
    moreover have "head rb \<le> t + 1" using hl t1 by (simp add: word_le_nat_alt)
    moreover have "t \<le> t + 1" using t1 by (simp add: word_le_nat_alt)
    ultimately show ?thesis using rb' th' t t1 inv(1) by simp
  qed
next
  case (PopCAS h t)
  show ?thesis
  proof (cases "\<not> h \<ge> t \<and> head rb = h")
    case False
    with st PopCAS inv show ?thesis by (auto split: if_splits)
  next
    case True
    then have rb': "rb' = rb\<lparr>head := h + 1\<rparr>" and th': "th' = PopLoadSlot h"
      using st PopCAS by auto
    from True have h: "head rb = h" and lt: "h < t" by auto
    from inv(4) PopCAS have tt: "t \<le> tail rb" by simp
    have "unat h < unat t" "unat t \<le> unat (tail rb)"
      using lt tt by (simp_all add: word_less_nat_alt word_le_nat_alt)
    moreover have "unat (tail rb) < 2 ^ 64" using unsigned_less [of "tail rb", where ?'a = nat] by simp
    ultimately have h1: "unat (h + 1) = Suc (unat h)" and le: "Suc (unat h) \<le> unat (tail rb)"
      by (simp_all add: unat_word_ariths)
    have "h + 1 \<le> tail rb" "h \<le> h + 1" using h1 le by (simp_all add: word_le_nat_alt)
    then show ?thesis using rb' th' h h1 inv by simp
  qed
qed (use st inv in \<open>auto simp: Let_def split: if_splits option.splits\<close>)


lemma fire_inv:
  assumes inv: "ring_inv k c" and k: "k < 2 ^ 64 - 1"
  shows "ring_inv (Suc k) (fire c e)"
proof (cases e)
  case (Call i opc)
  have "thread_ok (ring c) (start opc)" by (cases opc) auto
  with inv Call show ?thesis
    by (auto simp: ring_inv_def split: thread.splits)
next
  case (Step i)
  obtain rb' th' where st: "thread_step (ring c) (threads c i) = (rb', th')"
    by (cases "thread_step (ring c) (threads c i)")
  from inv have i: "unat (tail (ring c)) \<le> k" "head (ring c) \<le> tail (ring c)"
      "unat (tail (ring c)) - unat (head (ring c)) \<le> length (buffer (ring c))"
      "thread_ok (ring c) (threads c i)"
    and all: "\<And>j. thread_ok (ring c) (threads c j)"
    by (auto simp: ring_inv_def)
  from thread_step_inv [OF i k st]
  have r: "unat (tail rb') \<le> Suc k" "head rb' \<le> tail rb'"
      "unat (tail rb') - unat (head rb') \<le> length (buffer rb')" "thread_ok rb' th'"
      "head (ring c) \<le> head rb'" "tail (ring c) \<le> tail rb'"
    by auto
  have "thread_ok rb' (threads c j)" for j
    using thread_ok_mono [OF r(5) r(6) all [of j]] .
  with r Step st show ?thesis by (simp add: ring_inv_def)
qed

lemma run_inv:
  "ring_inv 0 c \<Longrightarrow> length es < 2 ^ 64 \<Longrightarrow> ring_inv (length es) (run c es)"
proof (induction es rule: rev_induct)
  case Nil
  then show ?case by (simp add: run_def)
next
  case (snoc e es)
  then have "ring_inv (length es) (run c es)" and "length es < 2 ^ 64 - 1" by auto
  then have "ring_inv (Suc (length es)) (fire (run c es) e)" by (rule fire_inv)
  then show ?case by (simp add: run_def)
qed

lemma fresh_inv: "ring_inv 0 (fresh n)"
  by (simp add: ring_inv_def fresh_def ring_with_def)

text \<open>
  Claim C1, as amended. In every state reached from a fresh ring by fewer than \<open>2^64\<close>
  events (calls of push, pushOwned and pop by any threads and their atomic steps, in any
  interleaving), \<open>head \<le> tail\<close> and \<open>tail - head \<le> length buffer\<close>.
\<close>

theorem ring_bounds:
  assumes "length es < 2 ^ 64"
  shows "head (ring (run (fresh n) es)) \<le> tail (ring (run (fresh n) es))
       \<and> unat (tail (ring (run (fresh n) es)) - head (ring (run (fresh n) es)))
           \<le> length (buffer (ring (run (fresh n) es)))"
proof -
  from run_inv [OF fresh_inv assms, of n]
  have le: "head (ring (run (fresh n) es)) \<le> tail (ring (run (fresh n) es))"
    and b: "unat (tail (ring (run (fresh n) es))) - unat (head (ring (run (fresh n) es)))
           \<le> length (buffer (ring (run (fresh n) es)))"
    by (auto simp: ring_inv_def)
  from le b show ?thesis by (simp add: unat_sub)
qed

text \<open>
  The interleaving \<open>sched\<close> ends with one payload consumed and one in the ring.
\<close>

theorem ring_bounds_witness:
  "length sched < 2 ^ 64
   \<and> head (ring (run (fresh 64) sched)) = 1 \<and> tail (ring (run (fresh 64) sched)) = 2
   \<and> head (ring (run (fresh 64) sched)) \<le> tail (ring (run (fresh 64) sched))
   \<and> unat (tail (ring (run (fresh 64) sched)) - head (ring (run (fresh 64) sched)))
       \<le> length (buffer (ring (run (fresh 64) sched)))"
proof -
  have l: "length sched < 2 ^ 64" by (simp add: sched_def)
  have h: "head (ring (run (fresh 64) sched)) = 1"
    by (simp add: run_def fresh_def sched_def ring_with_def rounded_size_def nextPow2_def
        LeadingZeros64_def Len64.simps word_le_nat_alt word_less_nat_alt)
  have t: "tail (ring (run (fresh 64) sched)) = 2"
    by (simp add: run_def fresh_def sched_def ring_with_def rounded_size_def nextPow2_def
        LeadingZeros64_def Len64.simps word_le_nat_alt word_less_nat_alt)
  from ring_bounds [OF l, of 64] l h t show ?thesis by simp
qed

subsection \<open>The counters wrap around\<close>

text \<open>
  The counters are 64-bit values and are never reset. A push followed by a pop moves both
  counters up by one and leaves the ring as it was.
\<close>

lemma idx63: "unat ((w :: 64 word) AND 63) < 64"
proof -
  have "w AND 63 \<le> 63" by (rule word_and_le1)
  then show ?thesis by (simp add: word_le_nat_alt)
qed

lemma run_append: "run c (xs @ ys) = run (run c xs) ys"
  by (simp add: run_def)

lemma push_alone_quiet:
  assumes "quiet w c"
  shows "head (ring (run c push_alone)) = w \<and> tail (ring (run c push_alone)) = w + 1
     \<and> buffer (ring (run c push_alone)) = (replicate 64 None)[unat (w AND 63) := Some []]
     \<and> mask (ring (run c push_alone)) = 63
     \<and> threads (run c push_alone) 0 = Returned (PushDone True)"
  using assms idx63 [of w]
  by (auto simp: quiet_def run_def push_alone_def Let_def word_le_nat_alt)

lemma cycle_quiet:
  assumes q: "quiet w c" and w: "w + 1 \<noteq> 0"
  shows "quiet (w + 1) (run c (push_alone @ pop_alone))"
proof -
  let ?c = "run c push_alone"
  note p = push_alone_quiet [OF q]
  have "unat (w + 1) = Suc (unat w)" using unatSuc [of w] w by (simp add: add.commute)
  then have lt: "\<not> w + 1 \<le> w" by (simp add: word_le_nat_alt)
  have i: "unat (w AND 63) < 64" by (rule idx63)
  have "quiet (w + 1) (run ?c pop_alone)"
    using p lt i by (simp add: quiet_def run_def pop_alone_def Let_def list_update_same_conv)
  then show ?thesis by (simp add: run_append)
qed


lemma concat_replicate_snoc: "concat (replicate (Suc k) x) = concat (replicate k x) @ x"
  by (induction k) simp_all

lemma cycles_quiet:
  "k < 2 ^ 64 \<Longrightarrow> quiet (of_nat k) (run (fresh 64) (concat (replicate k (push_alone @ pop_alone))))"
proof (induction k)
  case 0
  show ?case
    by (simp add: quiet_def run_def fresh_def ring_with_def rounded_size_def nextPow2_def
        LeadingZeros64_def Len64.simps word_le_nat_alt word_less_nat_alt)
next
  case (Suc k)
  then have q: "quiet (of_nat k) (run (fresh 64) (concat (replicate k (push_alone @ pop_alone))))"
    by simp
  have "unat (of_nat (Suc k) :: 64 word) = Suc k"
    unfolding unat_of_nat using Suc.prems by simp
  then have "(of_nat (Suc k) :: 64 word) \<noteq> 0" by (metis unat_0 nat.distinct(1))
  then have nz: "(of_nat k :: 64 word) + 1 \<noteq> 0" by (simp add: add.commute)
  have "concat (replicate (Suc k) (push_alone @ pop_alone))
        = concat (replicate k (push_alone @ pop_alone)) @ (push_alone @ pop_alone)"
    by (rule concat_replicate_snoc)
  with cycle_quiet [OF q nz] show ?case by (simp add: run_append add.commute)
qed

text \<open>
  The claim as stated, for every reachable state, fails: after \<open>2^64 - 1\<close> rounds of
  one push and one pop both counters are at their largest value, and one more push
  wraps the tail to 0 while the head stays where it is.
\<close>

theorem ring_bounds_wrap_counterexample:
  "\<not> head (ring (run (fresh 64) (concat (replicate laps (push_alone @ pop_alone)) @ push_alone)))
     \<le> tail (ring (run (fresh 64) (concat (replicate laps (push_alone @ pop_alone)) @ push_alone)))"
proof -
  have l: "laps < 2 ^ 64" by (simp add: laps_def)
  have e: "(of_nat laps :: 64 word) = - 1" by (simp add: laps_def)
  have q: "quiet (- 1) (run (fresh 64) (concat (replicate laps (push_alone @ pop_alone))))"
    using cycles_quiet [OF l] by (simp only: e)
  from push_alone_quiet [OF q] show ?thesis by (simp add: run_append)
qed

section \<open>Properties of the floating-point model\<close>

lemma bitlen_Len64: "bitlen n = Len64 n"
proof (induction n rule: Len64.induct)
  case (1 n)
  then show ?case by (simp add: bitlen.simps [of n] Len64.simps [of n])
qed

lemma bitlen_rat_bounds:
  assumes "0 < n"
  shows "power_int 2 (int (bitlen n) - 1) \<le> (of_nat n :: rat)"
    and "(of_nat n :: rat) < power_int 2 (int (bitlen n))"
proof -
  from Len64_bounds [OF assms]
  have lo: "2 ^ (bitlen n - 1) \<le> n" and hi: "n < 2 ^ bitlen n"
    by (simp_all add: bitlen_Len64)
  have pos: "0 < bitlen n" using assms by (simp add: bitlen.simps [of n])
  then have "int (bitlen n) - 1 = int (bitlen n - 1)" by simp
  then have "power_int 2 (int (bitlen n) - 1) = (2::rat) ^ (bitlen n - 1)"
    by (simp only: power_int_of_nat)
  also have "\<dots> = of_nat (2 ^ (bitlen n - 1))" by simp
  also have "\<dots> \<le> of_nat n" using lo by (simp only: of_nat_le_iff)
  finally show "power_int 2 (int (bitlen n) - 1) \<le> (of_nat n :: rat)" .
  have "(of_nat n :: rat) < of_nat (2 ^ bitlen n)" using hi by (simp only: of_nat_less_iff)
  then show "(of_nat n :: rat) < power_int 2 (int (bitlen n))" by simp
qed

lemma ilog2_bounds:
  assumes "0 < q"
  shows "power_int 2 (ilog2 q) \<le> q" and "q < power_int 2 (ilog2 q + 1)"
proof -
  obtain a b where ab: "quotient_of q = (a, b)" by (cases "quotient_of q")
  then have b: "0 < b" and q: "q = of_int a / of_int b"
    by (simp_all add: quotient_of_denom_pos quotient_of_div)
  from assms q b have a: "0 < a" by (simp add: zero_less_divide_iff)
  define la where "la = int (bitlen (nat a))"
  define lb where "lb = int (bitlen (nat b))"
  have an: "(of_int a :: rat) = of_nat (nat a)" and bn: "(of_int b :: rat) = of_nat (nat b)"
    using a b by simp_all
  have A: "power_int 2 (la - 1) \<le> (of_int a :: rat)" "(of_int a :: rat) < power_int 2 la"
    using bitlen_rat_bounds [of "nat a"] a unfolding an la_def by simp_all
  have B: "power_int 2 (lb - 1) \<le> (of_int b :: rat)" "(of_int b :: rat) < power_int 2 lb"
    using bitlen_rat_bounds [of "nat b"] b unfolding bn lb_def by simp_all
  have bpos: "0 < (of_int b :: rat)" using b by simp
  have "q * power_int 2 (lb - 1) \<le> q * of_int b"
    using B(1) assms by (simp add: mult_left_mono)
  also have "\<dots> = of_int a" using q bpos by simp
  also have "\<dots> < power_int 2 la" by (rule A(2))
  finally have "q < power_int 2 la / power_int 2 (lb - 1)"
    by (simp add: pos_less_divide_eq)
  moreover have "power_int (2::rat) (la - (lb - 1)) = power_int 2 la / power_int 2 (lb - 1)"
    by (rule power_int_diff) simp
  moreover have "la - (lb - 1) = la - lb + 1" by simp
  ultimately have up: "q < power_int 2 (la - lb + 1)" by (simp only:)
  have "power_int 2 (la - 1) \<le> (of_int a :: rat)" by (rule A(1))
  also have "\<dots> = q * of_int b" using q bpos by simp
  also have "\<dots> \<le> q * power_int 2 lb"
    using B(2) assms by (simp add: mult_left_mono less_imp_le)
  finally have "power_int 2 (la - 1) / power_int 2 lb \<le> q"
    by (simp add: pos_divide_le_eq)
  moreover have "power_int (2::rat) ((la - 1) - lb) = power_int 2 (la - 1) / power_int 2 lb"
    by (rule power_int_diff) simp
  moreover have "(la - 1) - lb = la - lb - 1" by simp
  ultimately have low: "power_int 2 (la - lb - 1) \<le> q" by (simp only:)
  have il: "ilog2 q = (if power_int 2 (la - lb) \<le> q then la - lb else la - lb - 1)"
    by (simp add: ilog2_def ab la_def lb_def Let_def)
  show "power_int 2 (ilog2 q) \<le> q" using low by (simp add: il)
  show "q < power_int 2 (ilog2 q + 1)" using up by (auto simp: il not_le)
qed


lemma round_even_le: "x \<le> of_int M \<Longrightarrow> round_even x \<le> M"
proof -
  assume x: "x \<le> of_int M"
  then have k: "\<lfloor>x\<rfloor> \<le> M" by (simp add: floor_le_iff)
  show ?thesis
  proof (cases "\<lfloor>x\<rfloor> = M")
    case True
    then have "of_int M \<le> x" by (metis of_int_floor_le)
    with x have "x = of_int M" by simp
    then show ?thesis by (simp add: round_even_def)
  next
    case False
    with k have "\<lfloor>x\<rfloor> + 1 \<le> M" by simp
    then show ?thesis by (auto simp: round_even_def Let_def)
  qed
qed

lemma round_even_ge: "of_int M \<le> x \<Longrightarrow> M \<le> round_even x"
proof -
  assume "of_int M \<le> x"
  then have "M \<le> \<lfloor>x\<rfloor>" by (simp add: le_floor_iff)
  then show ?thesis by (auto simp: round_even_def Let_def)
qed

lemma power_int_2_less_cancel:
  "power_int (2::rat) a < power_int 2 b \<Longrightarrow> a < b"
  by (rule ccontr) (simp add: not_less power_int_increasing not_le [symmetric])

lemma representable_bounds:
  assumes T: "(T::rat) = of_int m * power_int 2 (eT - 52)" and m: "2 ^ 52 \<le> m" "m < 2 ^ 53"
  shows "power_int 2 eT \<le> T" and "T < power_int 2 (eT + 1)"
proof -
  have u: "0 < power_int (2::rat) (eT - 52)" by simp
  have e1: "power_int (2::rat) eT = 2 ^ 52 * power_int 2 (eT - 52)"
    using power_int_add [of "2::rat" 52 "eT - 52"] by simp
  have e2: "power_int (2::rat) (eT + 1) = 2 ^ 53 * power_int 2 (eT - 52)"
    using power_int_add [of "2::rat" 53 "eT - 52"] by (simp add: add.commute)
  have "(2::rat) ^ 52 \<le> of_int m" using m(1) by (metis of_int_le_iff of_int_numeral of_int_power)
  then show "power_int 2 eT \<le> T" unfolding e1 T using u by (simp only: mult_le_cancel_right_pos)
  have "of_int m < (2::rat) ^ 53" using m(2) by (metis of_int_less_iff of_int_numeral of_int_power)
  then show "T < power_int 2 (eT + 1)" unfolding e2 T using u by (simp only: mult_less_cancel_right_pos)
qed


lemma float64_le:
  assumes q: "0 < q" "q \<le> T"
    and T: "T = of_int m * power_int 2 (eT - 52)" and m: "2 ^ 52 \<le> m" "m < 2 ^ 53"
  shows "float64 q \<le> T"
proof -
  note rb = representable_bounds [OF T m]
  note ib = ilog2_bounds [OF q(1)]
  define e where "e = ilog2 q"
  define u :: rat where "u = power_int 2 (e - 52)"
  have u: "0 < u" by (simp add: u_def)
  have f: "float64 q = of_int (round_even (q / u)) * u"
    using q(1) by (simp add: float64_def u_def e_def Let_def)
  have "power_int 2 e \<le> q" using ib(1) by (simp add: e_def)
  also have "q < power_int 2 (eT + 1)" using q(2) rb(2) by simp
  finally have "e < eT + 1" by (rule power_int_2_less_cancel)
  then have le: "e \<le> eT" by simp
  show ?thesis
  proof (cases "e = eT")
    case True
    then have "q / u \<le> of_int m" using q(2) u by (simp add: T u_def pos_divide_le_eq)
    then have "round_even (q / u) \<le> m" by (rule round_even_le)
    then have "(of_int (round_even (q / u)) :: rat) \<le> of_int m" by simp
    then have "of_int (round_even (q / u)) * u \<le> of_int m * u"
      using u by (simp only: mult_le_cancel_right_pos)
    then show ?thesis using True by (simp add: f T u_def)
  next
    case False
    have e53: "power_int (2::rat) (e + 1) = of_int (2 ^ 53) * u"
      using power_int_add [of "2::rat" 53 "e - 52"] by (simp add: u_def add.commute)
    have "q < power_int 2 (e + 1)" using ib(2) by (simp add: e_def)
    then have "q / u \<le> of_int (2 ^ 53)" using u by (simp add: e53 pos_divide_le_eq less_imp_le)
    then have "round_even (q / u) \<le> 2 ^ 53" by (rule round_even_le)
    then have "(of_int (round_even (q / u)) :: rat) \<le> of_int (2 ^ 53)" by (simp only: of_int_le_iff)
    then have "of_int (round_even (q / u)) * u \<le> of_int (2 ^ 53) * u"
      using u by (simp only: mult_le_cancel_right_pos)
    then have "float64 q \<le> power_int 2 (e + 1)" by (simp only: f e53)
    also have "\<dots> \<le> power_int 2 eT" using le False by (intro power_int_increasing) auto
    also have "\<dots> \<le> T" by (rule rb(1))
    finally show ?thesis .
  qed
qed

lemma float64_ge:
  assumes q: "T \<le> q"
    and T: "T = of_int m * power_int 2 (eT - 52)" and m: "2 ^ 52 \<le> m" "m < 2 ^ 53"
  shows "T \<le> float64 q"
proof -
  note rb = representable_bounds [OF T m]
  have "0 < power_int (2::rat) eT" by simp
  with rb(1) q have q0: "0 < q" by linarith
  note ib = ilog2_bounds [OF q0]
  define e where "e = ilog2 q"
  define u :: rat where "u = power_int 2 (e - 52)"
  have u: "0 < u" by (simp add: u_def)
  have f: "float64 q = of_int (round_even (q / u)) * u"
    using q0 by (simp add: float64_def u_def e_def Let_def)
  have "power_int 2 eT \<le> q" using rb(1) q by simp
  also have "q < power_int 2 (e + 1)" using ib(2) by (simp add: e_def)
  finally have "eT < e + 1" by (rule power_int_2_less_cancel)
  then have le: "eT \<le> e" by simp
  show ?thesis
  proof (cases "e = eT")
    case True
    then have "of_int m \<le> q / u" using q u by (simp add: T u_def pos_le_divide_eq)
    then have "m \<le> round_even (q / u)" by (rule round_even_ge)
    then have "(of_int m :: rat) \<le> of_int (round_even (q / u))" by simp
    then have "of_int m * u \<le> of_int (round_even (q / u)) * u"
      using u by (simp only: mult_le_cancel_right_pos)
    then show ?thesis using True by (simp add: f T u_def)
  next
    case False
    have e52: "power_int (2::rat) e = of_int (2 ^ 52) * u"
      using power_int_add [of "2::rat" 52 "e - 52"] by (simp add: u_def)
    have "power_int 2 e \<le> q" using ib(1) by (simp add: e_def)
    then have "of_int (2 ^ 52) \<le> q / u" using u by (simp add: e52 pos_le_divide_eq)
    then have "2 ^ 52 \<le> round_even (q / u)" by (rule round_even_ge)
    then have "(of_int (2 ^ 52) :: rat) \<le> of_int (round_even (q / u))" by (simp only: of_int_le_iff)
    then have "of_int (2 ^ 52) * u \<le> of_int (round_even (q / u)) * u"
      using u by (simp only: mult_le_cancel_right_pos)
    then have "power_int 2 e \<le> float64 q" by (simp only: f e52)
    moreover have "power_int (2::rat) (eT + 1) \<le> power_int 2 e"
      using le False by (intro power_int_increasing) auto
    ultimately show ?thesis using rb(2) by linarith
  qed
qed


lemma float64_tenth: "float64 (1 / 10) = 7205759403792794 * power_int 2 (- 56)"
  by code_simp


lemma float64_nat_exact:
  assumes n: "0 < n" "n < 2 ^ 53"
  shows "float64 (of_nat n) = of_nat n"
proof -
  define q :: rat where "q = of_nat n"
  have q0: "0 < q" using n(1) by (simp add: q_def)
  define e where "e = ilog2 q"
  note ib = ilog2_bounds [OF q0, folded e_def]
  have "q < of_nat (2 ^ 53)" unfolding q_def using n(2) by (simp only: of_nat_less_iff)
  then have "q < power_int 2 53" by simp
  with ib(1) have "power_int (2::rat) e < power_int 2 53" by (rule le_less_trans)
  then have e53: "e < 53" by (rule power_int_2_less_cancel)
  have "(of_nat 1 :: rat) \<le> of_nat n" using n(1) by (simp only: of_nat_le_iff)
  then have "power_int (2::rat) 0 \<le> q" by (simp add: q_def)
  also note ib(2)
  finally have "0 < e + 1" by (rule power_int_2_less_cancel)
  then have e0: "0 \<le> e" by simp
  define m where "m = int n * 2 ^ nat (52 - e)"
  have pw: "power_int (2::rat) (52 - e) = 2 ^ nat (52 - e)"
    using e53 by (simp add: power_int_def)
  have mq: "(of_int m :: rat) = q * power_int 2 (52 - e)"
    by (simp add: m_def q_def pw)
  have "power_int (2::rat) (52 - e) * power_int 2 (e - 52) = power_int 2 ((52 - e) + (e - 52))"
    by (rule power_int_add [symmetric]) simp
  then have one: "power_int (2::rat) (52 - e) * power_int 2 (e - 52) = 1" by simp
  have T: "q = of_int m * power_int 2 (e - 52)"
    using one by (simp add: mq mult.assoc)
  have p52: "power_int (2::rat) e * power_int 2 (52 - e) = power_int 2 (e + (52 - e))"
    by (rule power_int_add [symmetric]) simp
  have p53: "power_int (2::rat) (e + 1) * power_int 2 (52 - e) = power_int 2 ((e + 1) + (52 - e))"
    by (rule power_int_add [symmetric]) simp
  have pos: "0 < power_int (2::rat) (52 - e)" by simp
  have "power_int 2 e * power_int 2 (52 - e) \<le> q * power_int 2 (52 - e)"
    using ib(1) pos by (simp only: mult_le_cancel_right_pos)
  then have "(of_int (2 ^ 52) :: rat) \<le> of_int m" by (simp add: p52 mq)
  then have m1: "2 ^ 52 \<le> m" by (simp only: of_int_le_iff)
  have "q * power_int 2 (52 - e) < power_int 2 (e + 1) * power_int 2 (52 - e)"
    using ib(2) pos by (simp only: mult_less_cancel_right_pos)
  then have "(of_int m :: rat) < of_int (2 ^ 53)" by (simp add: p53 mq)
  then have m2: "m < 2 ^ 53" by (simp only: of_int_less_iff)
  have "float64 q \<le> q" by (rule float64_le [OF q0 order_refl T m1 m2])
  moreover have "q \<le> float64 q" by (rule float64_ge [OF order_refl T m1 m2])
  ultimately show ?thesis by (simp add: q_def)
qed

lemma float64_nat_large:
  assumes "2 ^ 53 \<le> n"
  shows "2 ^ 53 \<le> float64 (of_nat n)"
proof -
  have "(of_nat (2 ^ 53) :: rat) \<le> of_nat n" using assms by (simp only: of_nat_le_iff)
  then have q: "(2 ^ 53 :: rat) \<le> of_nat n" by simp
  have T: "(2 ^ 53 :: rat) = of_int (2 ^ 52) * power_int 2 (53 - 52)" by simp
  show ?thesis by (rule float64_ge [OF q T]) simp_all
qed


lemma contention_ratio_nat:
  assumes w: "100 \<le> wn" "wn \<le> 1000"
  shows "float64 (1 / 10) < float64 (float64 (of_nat cn) / float64 (of_nat wn))
         \<longleftrightarrow> wn < 10 * cn"
proof -
  define K :: rat where "K = 7205759403792794 * power_int 2 (- 56)"
  define r0 :: rat where "r0 = 205 / 2048"
  have K: "float64 (1 / 10) = K" by (simp only: float64_tenth K_def)
  have KT: "K = of_int 7205759403792794 * power_int 2 (- 4 - 52)" by (simp add: K_def)
  have rT: "r0 = of_int (205 * 2 ^ 45) * power_int 2 (- 4 - 52)" by (simp add: r0_def)
  have K10: "1 / 10 \<le> K" by (simp add: K_def)
  have Kr: "K < r0" by (simp add: K_def r0_def)
  have K0: "0 < K" by (simp add: K_def)
  have fw: "float64 (of_nat wn) = of_nat (wn)"
    using w by (intro float64_nat_exact) auto
  have wpos: "(0::rat) < of_nat (wn)" using w by simp
  show ?thesis
  proof (cases "wn < 10 * cn")
    case True
    have "r0 \<le> float64 (of_nat cn) / float64 (of_nat wn)"
    proof (cases "cn < 2 ^ 53")
      case c: True
      from True have "0 < cn" by simp
      then have fc: "float64 (of_nat cn) = of_nat (cn)"
        using c by (intro float64_nat_exact) auto
      from True w have "205 * wn \<le> 2048 * cn" by linarith
      then have "(of_nat (205 * wn) :: rat) \<le> of_nat (2048 * cn)"
        by (simp only: of_nat_le_iff)
      then have "205 * (of_nat (wn) :: rat) \<le> 2048 * of_nat (cn)" by simp
      then show ?thesis using wpos by (simp add: fc fw r0_def pos_le_divide_eq)
    next
      case False
      then have "2 ^ 53 \<le> float64 (of_nat cn)"
        by (intro float64_nat_large) simp
      moreover have "(of_nat (wn) :: rat) \<le> of_nat 1000" using w by (simp only: of_nat_le_iff)
      ultimately have "205 * (of_nat (wn) :: rat) \<le> 2048 * float64 (of_nat cn)" by simp
      then show ?thesis using wpos by (simp add: fw r0_def pos_le_divide_eq)
    qed
    then have "r0 \<le> float64 (float64 (of_nat cn) / float64 (of_nat wn))"
      by (rule float64_ge [OF _ rT]) simp_all
    with Kr True show ?thesis by (simp add: K)
  next
    case False
    then have c100: "10 * cn \<le> wn" by simp
    have "float64 (float64 (of_nat cn) / float64 (of_nat wn)) \<le> K"
    proof (cases "cn = 0")
      case True
      then have "float64 (of_nat cn) = 0" by (simp add: float64_def)
      then show ?thesis using K0 by (simp add: float64_def)
    next
      case nz: False
      then have "0 < cn" "cn < 2 ^ 53" using c100 w by auto
      then have fc: "float64 (of_nat cn) = of_nat (cn)"
        by (intro float64_nat_exact) auto
      have cpos: "(0::rat) < of_nat (cn)" using nz by simp
      have "(of_nat (10 * cn) :: rat) \<le> of_nat (wn)" using c100 by (simp only: of_nat_le_iff)
      then have "10 * (of_nat (cn) :: rat) \<le> of_nat (wn)" by simp
      then have "(of_nat (cn) :: rat) / of_nat (wn) \<le> 1 / 10"
        using wpos by (simp add: pos_divide_le_eq)
      then have "(of_nat cn :: rat) / of_nat wn \<le> K" using K10 by (rule order_trans)
      then have q: "float64 (of_nat cn) / float64 (of_nat wn) \<le> K" by (simp only: fc fw)
      have q0: "0 < float64 (of_nat cn) / float64 (of_nat wn)" using cpos wpos by (simp add: fc fw)
      show ?thesis by (rule float64_le [OF q0 q KT]) simp_all
    qed
    with False show ?thesis by (simp add: K)
  qed
qed

lemma contention_ratio_iff:
  assumes w: "100 \<le> unat w" "unat w \<le> 1000"
  shows "float64 (1 / 10) < float64 (float64_of_uint64 c / float64_of_uint64 w)
         \<longleftrightarrow> unat w < 10 * unat c"
  unfolding float64_of_uint64_def using w by (rule contention_ratio_nat)

lemma contention_ratio_zero:
  "\<not> float64 (1 / 10) < float64 (float64_of_uint64 0 / float64_of_uint64 w)"
  by (simp add: float64_tenth) (simp add: float64_of_uint64_def float64_def)

section \<open>Adaptive mode selection\<close>

lemma shouldScaleToMPSC_char:
  "shouldScaleToMPSC l \<longleftrightarrow>
     100 \<le> unat (writeCount l)
   \<and> ((0 < unat (contentionCount l) \<and> 1000 < unat (writeCount l))
      \<or> 1000000 < unat (totalLatency l) div unat (writeCount l)
      \<or> 5000000 < unat (lastLatency l)
      \<or> unat (writeCount l) < 10 * unat (contentionCount l))"
proof -
  define w where "w = writeCount l"
  define c where "c = contentionCount l"
  have w100: "w < 100 \<longleftrightarrow> unat w < 100" by (simp add: word_less_nat_alt)
  have c0: "0 < c \<longleftrightarrow> 0 < unat c" by (simp add: word_less_nat_alt)
  have w1000: "1000 < w \<longleftrightarrow> 1000 < unat w" by (simp add: word_less_nat_alt)
  have avg: "1000000 < totalLatency l div w \<longleftrightarrow> 1000000 < unat (totalLatency l) div unat w"
    by (simp add: word_less_nat_alt unat_div)
  have last: "5000000 < lastLatency l \<longleftrightarrow> 5000000 < unat (lastLatency l)"
    by (simp add: word_less_nat_alt)
  have ratio: "float64 (1 / 10) < float64 (float64_of_uint64 c / float64_of_uint64 w)
        \<longleftrightarrow> unat w < 10 * unat c"
    if "100 \<le> unat w" "\<not> (0 < unat c \<and> 1000 < unat w)"
  proof (cases "unat w \<le> 1000")
    case True
    with that(1) show ?thesis by (rule contention_ratio_iff)
  next
    case False
    with that(2) have "unat c = 0" by simp
    then have "c = 0" by (simp add: unat_eq_0)
    then show ?thesis using contention_ratio_zero [of w] by simp
  qed
  have "shouldScaleToMPSC l \<longleftrightarrow>
     (\<not> w < 100 \<and> ((0 < c \<and> 1000 < w) \<or> 1000000 < totalLatency l div w
        \<or> 5000000 < lastLatency l
        \<or> float64 (1 / 10) < float64 (float64_of_uint64 c / float64_of_uint64 w)))"
    by (auto simp: shouldScaleToMPSC_def Let_def w_def c_def)
  also have "\<dots> \<longleftrightarrow> 100 \<le> unat w
   \<and> ((0 < unat c \<and> 1000 < unat w)
      \<or> 1000000 < unat (totalLatency l) div unat w
      \<or> 5000000 < unat (lastLatency l)
      \<or> unat w < 10 * unat c)"
  proof (cases "100 \<le> unat w")
    case False
    then show ?thesis unfolding w100 by simp
  next
    case True
    show ?thesis
    proof (cases "0 < unat c \<and> 1000 < unat w")
      case A: True
      then show ?thesis unfolding w100 c0 w1000 using True by simp
    next
      case B: False
      from ratio [OF True B] show ?thesis
        unfolding w100 c0 w1000 avg last using True B by simp
    qed
  qed
  finally show ?thesis by (simp only: w_def c_def)
qed

text \<open>
  Claim C3, as amended. With \<open>w\<close> writes, \<open>c\<close> contentions, total latency \<open>T\<close> and last
  latency \<open>L\<close> (nanoseconds), \<open>shouldScaleToMPSC\<close> returns true exactly when \<open>w \<ge> 100\<close>
  and one of: \<open>c > 0\<close> and \<open>w > 1000\<close>; the truncated quotient \<open>T div w\<close> is above
  1000000; \<open>L\<close> is above 5000000; the contention ratio \<open>c / w\<close> is above one tenth, that
  is \<open>w < 10 * c\<close>.
\<close>

theorem shouldScaleToMPSC_iff:
  "shouldScaleToMPSC l \<longleftrightarrow>
     100 \<le> unat (writeCount l)
   \<and> ((0 < unat (contentionCount l) \<and> 1000 < unat (writeCount l))
      \<or> 1000000 < unat (totalLatency l) div unat (writeCount l)
      \<or> 5000000 < unat (lastLatency l)
      \<or> unat (writeCount l) < 10 * unat (contentionCount l))"
  by (rule shouldScaleToMPSC_char)

text \<open>
  The claim as stated, with the average latency \<open>T / w\<close> above 1 ms, fails: with 100
  writes and a total latency of 100000099 ns the average is above one millisecond, and
  the result is false, because the code compares the truncated quotient.
\<close>

theorem shouldScaleToMPSC_average_counterexample:
  "\<not> shouldScaleToMPSC slow_logger
   \<and> 100 \<le> unat (writeCount slow_logger)
   \<and> (1000000 :: rat) < of_nat (unat (totalLatency slow_logger)) / of_nat (unat (writeCount slow_logger))"
proof -
  have f: "writeCount slow_logger = 100" "contentionCount slow_logger = 0"
    "totalLatency slow_logger = 100000099" "lastLatency slow_logger = 0"
    by (simp_all add: slow_logger_def zeroLogger_def)
  have "\<not> shouldScaleToMPSC slow_logger"
    unfolding shouldScaleToMPSC_char f by simp
  then show ?thesis unfolding f by simp
qed

section \<open>Properties of the parsers\<close>

lemma decimal_ge: "x \<le> decimal x ds"
proof (induction ds arbitrary: x)
  case Nil
  show ?case by simp
next
  case (Cons c cs)
  have "x \<le> x * 10 + digit_val c" by simp
  also have "\<dots> \<le> decimal (x * 10 + digit_val c) cs" by (rule Cons.IH)
  finally show ?case by simp
qed

lemma ParseUint_from_digits:
  "list_all is_digit ds \<Longrightarrow> decimal x ds \<le> 2 ^ 64 - 1 \<Longrightarrow> ParseUint_from x ds = Inr (decimal x ds)"
proof (induction ds arbitrary: x)
  case Nil
  show ?case by simp
next
  case (Cons c cs)
  let ?y = "x * 10 + digit_val c"
  from Cons.prems have d: "is_digit c" "list_all is_digit cs" and b: "decimal ?y cs \<le> 2 ^ 64 - 1"
    by simp_all
  have "?y \<le> decimal ?y cs" by (rule decimal_ge)
  then have y: "?y \<le> 2 ^ 64 - 1" using b by (rule order_trans)
  then have "x * 10 \<le> 2 ^ 64 - 1" by simp
  then have x: "\<not> x \<ge> (2 ^ 64 - 1) div 10 + 1" by simp
  from Cons.IH [OF d(2) b] d(1) x y show ?case by simp
qed

lemma ParseUint_from_non_digit:
  "\<not> list_all is_digit ds \<Longrightarrow> isl (ParseUint_from x ds)"
  by (induction ds arbitrary: x) auto

lemma ParseInt_digits:
  assumes "digits ds" "decimal 0 ds < 2 ^ 63"
  shows "ParseInt ds = Inr (int (decimal 0 ds))"
proof -
  from assms(1) obtain c cs where ds: "ds = c # cs" and c: "is_digit c"
    by (cases ds) (auto simp: digits_def)
  have sign: "c \<noteq> CHR ''+''" "c \<noteq> CHR ''-''" using c by (auto simp: is_digit_def)
  have "ParseUint ds = Inr (decimal 0 ds)"
    using assms ParseUint_from_digits [of ds 0] by (simp add: ParseUint_def digits_def)
  then show ?thesis using assms(2) sign by (simp add: ParseInt_def ds)
qed

lemma ParseInt_non_digit:
  assumes "x \<in> set s" "\<not> is_digit x" "x \<noteq> CHR ''+''" "x \<noteq> CHR ''-''"
  shows "isl (ParseInt s)"
proof -
  have nd: "\<not> list_all is_digit s" using assms by (auto simp: list_all_iff)
  from assms have s: "s \<noteq> []" by auto
  define s1 where "s1 = (if hd s = CHR ''+'' \<or> hd s = CHR ''-'' then tl s else s)"
  have "x \<in> set s1" using assms s by (cases s) (auto simp: s1_def)
  then have "\<not> list_all is_digit s1" using assms by (auto simp: list_all_iff)
  then have "isl (ParseUint_from 0 s1)" by (rule ParseUint_from_non_digit)
  then have "isl (ParseUint s1)" by (simp add: ParseUint_def)
  then obtain e where "ParseUint s1 = Inl e" by (cases "ParseUint s1") auto
  then show ?thesis using s by (cases e) (simp_all add: ParseInt_def s1_def [symmetric] Let_def)
qed


lemma leadingInt_from_suffix:
  "leadingInt_from x s = Some (v, r) \<Longrightarrow> \<exists>p. s = p @ r"
proof (induction s arbitrary: x)
  case Nil
  then show ?case by simp
next
  case (Cons c cs)
  show ?case
  proof (cases "is_digit c")
    case False
    with Cons.prems show ?thesis by simp
  next
    case True
    with Cons.prems have "leadingInt_from (x * 10 + digit_val c) cs = Some (v, r)"
      by (simp split: if_splits)
    from Cons.IH [OF this] obtain p where "cs = p @ r" ..
    then have "c # cs = (c # p) @ r" by simp
    then show ?thesis ..
  qed
qed

lemma leadingFraction_from_suffix:
  "leadingFraction_from x sc ov s = (f, sc', r) \<Longrightarrow> \<exists>p. s = p @ r"
proof (induction s arbitrary: x sc ov)
  case Nil
  then show ?case by simp
next
  case (Cons c cs)
  show ?case
  proof (cases "is_digit c")
    case False
    with Cons.prems show ?thesis by simp
  next
    case True
    with Cons.prems obtain x' sc'' ov' where "leadingFraction_from x' sc'' ov' cs = (f, sc', r)"
      by (auto split: if_splits)
    from Cons.IH [OF this] obtain p where "cs = p @ r" ..
    then have "c # cs = (c # p) @ r" by simp
    then show ?thesis ..
  qed
qed


lemma unitMap_last: "unitMap u = Some k \<Longrightarrow> u \<noteq> [] \<and> unit_end (last u)"
  by (auto simp: unitMap_def unit_end_def split: if_splits)

lemma duration_group_rest:
  assumes "duration_group s d = Inr (d1, s3)"
  shows "\<exists>p u. s = p @ u @ s3 \<and> u \<noteq> [] \<and> unit_end (last u)"
proof -
  from assms obtain v s1 where li: "leadingInt s = Some (v, s1)"
    by (auto simp: duration_group_def split: if_splits option.splits)
  then obtain p1 where p1: "s = p1 @ s1"
    unfolding leadingInt_def by (auto dest: leadingInt_from_suffix)
  define frac where "frac = (if s1 \<noteq> [] \<and> hd s1 = CHR ''.''
                      then (case leadingFraction (tl s1) of
                              (f, scale, s2) \<Rightarrow> (f, scale, s2, length (tl s1) \<noteq> length s2))
                      else (0, 1, s1, False))"
  obtain f scale s2 post where fr: "frac = (f, scale, s2, post)" by (cases frac) auto
  have "\<exists>p2. s1 = p2 @ s2"
  proof (cases "s1 \<noteq> [] \<and> hd s1 = CHR ''.''")
    case False
    with fr have "s2 = s1" by (auto simp: frac_def)
    then show ?thesis by simp
  next
    case True
    with fr obtain f' sc' where "leadingFraction (tl s1) = (f', sc', s2)"
      by (auto simp: frac_def split: prod.splits)
    then obtain p where "tl s1 = p @ s2"
      unfolding leadingFraction_def by (auto dest: leadingFraction_from_suffix)
    with True have "s1 = (hd s1 # p) @ s2" by (cases s1) auto
    then show ?thesis ..
  qed
  then obtain p2 where p2: "s1 = p2 @ s2" ..
  define u where "u = takeWhile (\<lambda>c. \<not> in_number c) s2"
  have s2: "s2 = u @ dropWhile (\<lambda>c. \<not> in_number c) s2" by (simp add: u_def)
  from assms li fr obtain k where k: "unitMap u = Some k"
    and s3: "s3 = dropWhile (\<lambda>c. \<not> in_number c) s2"
    by (auto simp: duration_group_def frac_def [symmetric] u_def [symmetric] Let_def
        split: if_splits option.splits)
  from unitMap_last [OF k] have "u \<noteq> []" "unit_end (last u)" by auto
  moreover have "s = (p1 @ p2) @ u @ s3" using p1 p2 s2 s3 by simp
  ultimately show ?thesis by blast
qed

lemma duration_loop_last:
  "duration_loop n s d = Inr r \<Longrightarrow> s \<noteq> [] \<Longrightarrow> unit_end (last s)"
proof (induction n arbitrary: s d)
  case 0
  then show ?case by simp
next
  case (Suc n)
  from Suc.prems obtain d1 s3 where g: "duration_group s d = Inr (d1, s3)"
    and l: "duration_loop n s3 d1 = Inr r"
    by (auto split: sum.splits)
  from duration_group_rest [OF g] obtain p u where
    s: "s = p @ u @ s3" and u: "u \<noteq> []" "unit_end (last u)" by blast
  show ?case
  proof (cases "s3 = []")
    case True
    with s u show ?thesis by simp
  next
    case False
    from Suc.IH [OF l False] have "unit_end (last s3)" .
    with s False show ?thesis by simp
  qed
qed

lemma time_ParseDuration_last:
  assumes "time_ParseDuration s = Inr r" "s \<noteq> []"
  shows "unit_end (last s) \<or> last s = CHR ''0''"
proof -
  define s1 where "s1 = (if s \<noteq> [] \<and> (hd s = CHR ''-'' \<or> hd s = CHR ''+'') then tl s else s)"
  show ?thesis
  proof (cases "s1 = ''0''")
    case True
    then have "last s1 = CHR ''0''" by simp
    moreover have "last s = last s1" using True assms(2)
      by (cases s) (auto simp: s1_def split: if_splits)
    ultimately show ?thesis by simp
  next
    case False
    with assms(1) have ne: "s1 \<noteq> []" and "\<exists>d. duration_groups s1 = Inr d"
      by (auto simp: time_ParseDuration_def s1_def [symmetric] Let_def split: if_splits sum.splits)
    then obtain d where "duration_loop (length s1) s1 0 = Inr d"
      by (auto simp: duration_groups_def)
    from duration_loop_last [OF this ne] have "unit_end (last s1)" .
    moreover have "last s = last s1" using ne assms(2)
      by (cases s) (auto simp: s1_def split: if_splits)
    ultimately show ?thesis by simp
  qed
qed


lemma HasSuffix_single: "s \<noteq> [] \<Longrightarrow> HasSuffix s [c] \<longleftrightarrow> last s = c"
proof -
  assume "s \<noteq> []"
  then have "s = butlast s @ [last s]" by simp
  then have "drop (length s - 1) s = [last s]"
    by (metis append_eq_conv_conj length_butlast)
  then show ?thesis using \<open>s \<noteq> []\<close> by (auto simp: HasSuffix_def Suc_leI)
qed

lemma std_rejects:
  assumes "s \<noteq> []" "\<not> unit_end (last s)" "last s \<noteq> CHR ''0''"
  shows "\<exists>e. time_ParseDuration s = Inl e"
  using time_ParseDuration_last [OF _ assms(1)] assms(2,3)
  by (cases "time_ParseDuration s") auto

lemma ParseDuration_suffix:
  assumes s: "s \<noteq> []" and l: "lower_char (last s) = c"
    and c: "c = CHR ''d'' \<or> c = CHR ''w'' \<or> c = CHR ''y''"
    and nu: "\<not> unit_end (last s)" "last s \<noteq> CHR ''0''"
  shows "ParseDuration s =
     (case ParseInt (map lower_char (butlast s)) of
        Inl e \<Rightarrow> Inl (ErrInvalidDurationNumber e)
      | Inr val \<Rightarrow> Inr (wrap64 (val * ((if c = CHR ''d'' then 24 else if c = CHR ''w'' then 7 * 24
                                           else 365 * 24) * Hour))))"
proof -
  from std_rejects [OF s nu] obtain e where e: "time_ParseDuration s = Inl e" ..
  have ne: "ToLower s \<noteq> []" using s by (simp add: ToLower_def)
  have la: "last (ToLower s) = c" using s l by (simp add: ToLower_def last_map)
  have num: "take (length (ToLower s) - Suc 0) (ToLower s) = map lower_char (butlast s)"
    by (simp add: ToLower_def butlast_conv_take take_map)
  have suf: "HasSuffix (ToLower s) [x] \<longleftrightarrow> c = x" for x
    using HasSuffix_single [OF ne] la by auto
  show ?thesis
    using c by (cases "ParseInt (map lower_char (butlast s))")
      (auto simp: ParseDuration_def s e Let_def suf num)
qed

lemma lower_char_digit: "is_digit c \<Longrightarrow> lower_char c = c"
  by (simp add: is_digit_def lower_char_def)

lemma ParseDuration_extended_digits:
  assumes ds: "digits ds" "decimal 0 ds < 2 ^ 63"
    and c: "c = CHR ''d'' \<or> c = CHR ''w'' \<or> c = CHR ''y''"
  shows "ParseDuration (ds @ [c]) =
     Inr (wrap64 (int (decimal 0 ds) * ((if c = CHR ''d'' then 24 else if c = CHR ''w'' then 7 * 24
                                           else 365 * 24) * Hour)))"
proof -
  have l: "lower_char (last (ds @ [c])) = c" using c by (auto simp: lower_char_def)
  have nu: "\<not> unit_end (last (ds @ [c]))" "last (ds @ [c]) \<noteq> CHR ''0''"
    using c by (auto simp: unit_end_def)
  have "map lower_char ds = ds"
    using ds(1) by (auto simp: digits_def list_all_iff lower_char_digit intro: map_idI)
  then have "ParseInt (map lower_char (butlast (ds @ [c]))) = Inr (int (decimal 0 ds))"
    using ParseInt_digits [OF ds] by simp
  with ParseDuration_suffix [OF _ l c nu] show ?thesis by simp
qed

lemma ParseDuration_decimal_rejected:
  assumes s: "s \<noteq> []"
    and l: "lower_char (last s) = CHR ''d'' \<or> lower_char (last s) = CHR ''w''
            \<or> lower_char (last s) = CHR ''y''"
    and dot: "CHR ''.'' \<in> set (butlast s)"
  shows "isl (ParseDuration s)"
proof -
  have nu: "\<not> unit_end (last s)" "last s \<noteq> CHR ''0''"
    using l by (auto simp: unit_end_def lower_char_def)
  have "lower_char CHR ''.'' = CHR ''.''" by (simp add: lower_char_def)
  with dot have "CHR ''.'' \<in> set (map lower_char (butlast s))" by force
  then have "isl (ParseInt (map lower_char (butlast s)))"
    by (rule ParseInt_non_digit) (simp_all add: is_digit_def)
  then obtain e where "ParseInt (map lower_char (butlast s)) = Inl e"
    by (cases "ParseInt (map lower_char (butlast s))") auto
  with ParseDuration_suffix [OF s refl l nu] show ?thesis by simp
qed


lemma leadingInt_from_digits:
  "list_all is_digit ds \<Longrightarrow> decimal x ds \<le> 2 ^ 63 \<Longrightarrow> rest = [] \<or> \<not> is_digit (hd rest)
   \<Longrightarrow> leadingInt_from x (ds @ rest) = Some (decimal x ds, rest)"
proof (induction ds arbitrary: x)
  case Nil
  then show ?case by (cases rest) auto
next
  case (Cons c cs)
  let ?y = "x * 10 + digit_val c"
  from Cons.prems have d: "is_digit c" "list_all is_digit cs" and b: "decimal ?y cs \<le> 2 ^ 63"
    by simp_all
  have "?y \<le> decimal ?y cs" by (rule decimal_ge)
  then have y: "?y \<le> 2 ^ 63" using b by (rule order_trans)
  then have "x * 10 \<le> 2 ^ 63" by simp
  then have x: "\<not> x > 2 ^ 63 div 10" by simp
  from Cons.IH [OF d(2) b Cons.prems(3)] d(1) x y show ?case by simp
qed

lemma duration_loop_Nil: "duration_loop m [] d = Inr d"
  by (cases m) simp_all

lemma unitMap_pos: "unitMap u = Some k \<Longrightarrow> 0 < k"
  by (auto simp: unitMap_def split: if_splits)

lemma std_literal:
  assumes ds: "digits ds" and k: "unitMap u = Some k"
    and u: "list_all (\<lambda>c. \<not> in_number c) u"
    and b: "decimal 0 ds * k \<le> 2 ^ 63 - 1"
  shows "time_ParseDuration (ds @ u) = Inr (int (decimal 0 ds * k))"
proof -
  define n where "n = decimal 0 ds"
  from unitMap_last [OF k] have une: "u \<noteq> []" by simp
  from unitMap_pos [OF k] have kpos: "0 < k" .
  from ds obtain c cs where dsc: "ds = c # cs" and c: "is_digit c"
    by (cases ds) (auto simp: digits_def)
  have hdu: "\<not> in_number (hd u)" using u une by (cases u) auto
  then have hdu': "\<not> is_digit (hd u)" "hd u \<noteq> CHR ''.''" by (auto simp: in_number_def)
  have "n \<le> n * k" using kpos by simp
  moreover have "n * k \<le> 2 ^ 63" using b by (simp add: n_def)
  ultimately have n63: "n \<le> 2 ^ 63" by (rule order_trans)
  have li: "leadingInt (ds @ u) = Some (n, u)"
    unfolding leadingInt_def n_def
    using ds n63 hdu'(1) by (intro leadingInt_from_digits) (auto simp: digits_def n_def)
  have tw: "takeWhile (\<lambda>c. \<not> in_number c) u = u" "dropWhile (\<lambda>c. \<not> in_number c) u = []"
    using u by (auto simp: list_all_iff)
  have "n * k \<le> 2 ^ 63" using b by (simp add: n_def)
  then have nk: "\<not> n > 2 ^ 63 div k" using kpos by (simp add: less_eq_div_iff_mult_less_eq not_less)
  have mod: "(n * k) mod 2 ^ 64 = n * k" using b by (simp add: n_def)
  have big: "\<not> n * k > 2 ^ 63" using b by (simp add: n_def)
  have inn: "in_number (hd (ds @ u))" using c by (simp add: dsc in_number_def)
  have len: "length (ds @ u) \<noteq> length u" by (simp add: dsc)
  have g: "duration_group (ds @ u) 0 = Inr (n * k, [])"
    unfolding duration_group_def
    using inn len hdu'(2) une nk mod big
    by (simp add: li tw k Let_def del: hd_append2 length_append)
  define s where "s = ds @ u"
  have gs: "duration_groups s = Inr (n * k)"
    using g une by (cases "length (ds @ u)") (auto simp: s_def duration_groups_def duration_loop_Nil)
  have s0: "s \<noteq> ''0''" "s \<noteq> []" using une dsc by (auto simp: s_def)
  have sg: "hd s \<noteq> CHR ''-''" "hd s \<noteq> CHR ''+''"
    using c by (auto simp: s_def dsc is_digit_def)
  have le: "\<not> n * k > 2 ^ 63 - 1" using b by (simp add: n_def)
  have "time_ParseDuration s = Inr (int (n * k))"
    unfolding time_ParseDuration_def using s0 sg le by (simp add: gs Let_def)
  then show ?thesis by (simp only: s_def n_def)
qed

text \<open>
  The bound on the rounds of the loop is never reached: a group that is accepted is
  followed by a strictly shorter rest, so every bound of at least the length of the
  string gives the same result.
\<close>

lemma duration_group_shorter:
  "duration_group s d = Inr (d1, s3) \<Longrightarrow> length s3 < length s"
proof -
  assume "duration_group s d = Inr (d1, s3)"
  from duration_group_rest [OF this] obtain p u where "s = p @ u @ s3" "u \<noteq> []" by blast
  then show ?thesis by (cases u) auto
qed

lemma duration_loop_fuel:
  "length s \<le> n \<Longrightarrow> length s \<le> m \<Longrightarrow> duration_loop n s d = duration_loop m s d"
proof (induction n arbitrary: m s d)
  case 0
  then show ?case by (simp add: duration_loop_Nil)
next
  case (Suc n)
  show ?case
  proof (cases "s = []")
    case True
    then show ?thesis by (simp add: duration_loop_Nil)
  next
    case False
    with Suc.prems obtain m' where m: "m = Suc m'" by (cases m) auto
    show ?thesis
    proof (cases "duration_group s d")
      case (Inl e)
      then show ?thesis using False by (simp add: m)
    next
      case (Inr r)
      obtain d1 s3 where r: "r = (d1, s3)" by (cases r)
      from duration_group_shorter [OF Inr [unfolded r]] have "length s3 < length s" .
      with Suc.prems m have "length s3 \<le> n" "length s3 \<le> m'" by simp_all
      from Suc.IH [OF this] show ?thesis using False Inr r by (simp add: m)
    qed
  qed
qed

lemma duration_groups_fuel:
  "length s \<le> n \<Longrightarrow> duration_loop n s 0 = duration_groups s"
  unfolding duration_groups_def by (rule duration_loop_fuel) simp_all

subsection \<open>Duration strings\<close>

lemma std_units_unitMap:
  "(u, k) \<in> set std_units \<Longrightarrow> unitMap u = Some k \<and> list_all (\<lambda>c. \<not> in_number c) u"
  by (auto simp: std_units_def unitMap_def in_number_def is_digit_def)

lemma float64_numeral_exact:
  "(numeral n :: nat) < 2 ^ 53 \<Longrightarrow> float64 (numeral n) = numeral n"
  using float64_nat_exact [of "numeral n"] by simp

lemma wrap64_id: "- (2 ^ 63) \<le> x \<Longrightarrow> x < 2 ^ 63 \<Longrightarrow> wrap64 x = x"
  by (simp add: wrap64_def)

lemma leadingInt_half: "leadingInt ''0.5s'' = Some (0, ''.5s'')"
  by (simp add: leadingInt_def is_digit_def digit_val_def)

lemma leadingFraction_half: "leadingFraction ''5s'' = (5, 10, ''s'')"
  by (simp add: leadingFraction_def is_digit_def digit_val_def float64_numeral_exact)

lemma group_half: "duration_group ''0.5s'' 0 = Inr (500000000, [])"
  by (simp add: duration_group_def leadingInt_half leadingFraction_half in_number_def is_digit_def
      unitMap_def Let_def float64_numeral_exact)

lemma std_half: "time_ParseDuration ''0.5s'' = Inr 500000000"
  by (simp add: time_ParseDuration_def duration_groups_def group_half Let_def
      numeral_eq_Suc [of "num.Bit0 (num.Bit0 num.One)"] del: duration_loop.simps(2))
     (simp add: group_half)

text \<open>
  Claim C7, as amended. Whatever the standard parser \<open>time.ParseDuration\<close> accepts,
  \<open>ParseDuration\<close> accepts with the same value, decimal fractions such as \<open>0.5s\<close>
  included; in particular a decimal integer count with a standard unit (\<open>ns\<close>, \<open>us\<close>,
  \<open>ms\<close>, \<open>s\<close>, \<open>m\<close>, \<open>h\<close>) is the count times the unit when that fits in an \<open>int64\<close>.
  A decimal integer count below \<open>2^63\<close> with one of the extended suffixes \<open>d\<close>
  (24 hours), \<open>w\<close> (7 days) and \<open>y\<close> (365 days) is accepted, and the result is the product
  computed in an \<open>int64\<close>, which wraps around: it is the count times the unit exactly when
  that is below \<open>2^63\<close>. A string that ends in \<open>d\<close>, \<open>w\<close> or \<open>y\<close> (in either case) and
  has a decimal point before it is rejected.
\<close>

theorem ParseDuration_forms:
  "(s' \<noteq> [] \<and> time_ParseDuration s' = Inr d \<longrightarrow> ParseDuration s' = Inr d)
   \<and> (digits ds \<and> (u, k) \<in> set std_units \<and> decimal 0 ds * k \<le> 2 ^ 63 - 1
      \<longrightarrow> ParseDuration (ds @ u) = Inr (int (decimal 0 ds * k)))
   \<and> (digits ds \<and> decimal 0 ds < 2 ^ 63
      \<longrightarrow> ParseDuration (ds @ ''d'') = Inr (wrap64 (int (decimal 0 ds) * (24 * Hour)))
        \<and> ParseDuration (ds @ ''w'') = Inr (wrap64 (int (decimal 0 ds) * (7 * 24 * Hour)))
        \<and> ParseDuration (ds @ ''y'') = Inr (wrap64 (int (decimal 0 ds) * (365 * 24 * Hour))))
   \<and> (digits ds \<and> (x, m) \<in> set ext_units \<and> int (decimal 0 ds) * m < 2 ^ 63
      \<longrightarrow> ParseDuration (ds @ x) = Inr (int (decimal 0 ds) * m))
   \<and> (s \<noteq> [] \<and> lower_char (last s) \<in> {CHR ''d'', CHR ''w'', CHR ''y''}
        \<and> CHR ''.'' \<in> set (butlast s)
      \<longrightarrow> isl (ParseDuration s))"
proof (intro conjI impI)
  assume "s' \<noteq> [] \<and> time_ParseDuration s' = Inr d"
  then show "ParseDuration s' = Inr d" by (simp add: ParseDuration_def)
next
  assume a: "digits ds \<and> (u, k) \<in> set std_units \<and> decimal 0 ds * k \<le> 2 ^ 63 - 1"
  then have um: "unitMap u = Some k" "list_all (\<lambda>c. \<not> in_number c) u"
    using std_units_unitMap by auto
  from a have "time_ParseDuration (ds @ u) = Inr (int (decimal 0 ds * k))"
    by (intro std_literal um) auto
  moreover have "ds @ u \<noteq> []" using a by (auto simp: digits_def)
  ultimately show "ParseDuration (ds @ u) = Inr (int (decimal 0 ds * k))"
    by (simp add: ParseDuration_def)
next
  assume a: "digits ds \<and> decimal 0 ds < 2 ^ 63"
  then show "ParseDuration (ds @ ''d'') = Inr (wrap64 (int (decimal 0 ds) * (24 * Hour)))"
    using ParseDuration_extended_digits [of ds "CHR ''d''"] by simp
  from a show "ParseDuration (ds @ ''w'') = Inr (wrap64 (int (decimal 0 ds) * (7 * 24 * Hour)))"
    using ParseDuration_extended_digits [of ds "CHR ''w''"] by simp
  from a show "ParseDuration (ds @ ''y'') = Inr (wrap64 (int (decimal 0 ds) * (365 * 24 * Hour)))"
    using ParseDuration_extended_digits [of ds "CHR ''y''"] by simp
next
  assume a: "digits ds \<and> (x, m) \<in> set ext_units \<and> int (decimal 0 ds) * m < 2 ^ 63"
  then consider "x = ''d'' \<and> m = 24 * Hour" | "x = ''w'' \<and> m = 7 * 24 * Hour"
    | "x = ''y'' \<and> m = 365 * 24 * Hour"
    by (auto simp: ext_units_def)
  then obtain c where c: "x = [c]" "c = CHR ''d'' \<or> c = CHR ''w'' \<or> c = CHR ''y''"
    and m: "m = (if c = CHR ''d'' then 24 else if c = CHR ''w'' then 7 * 24 else 365 * 24) * Hour"
    by cases auto
  have m1: "1 \<le> m" using m by (auto simp: Hour_def)
  have n0: "0 \<le> int (decimal 0 ds)" by simp
  have "int (decimal 0 ds) * 1 \<le> int (decimal 0 ds) * m"
    using m1 n0 by (rule mult_left_mono)
  with a have lt: "int (decimal 0 ds) < 2 ^ 63" by simp
  then have lt': "decimal 0 ds < 2 ^ 63" by (simp add: of_nat_less_numeral_power_cancel_iff)
  have ge: "- (2 ^ 63) \<le> int (decimal 0 ds) * m"
    using m1 n0 by (smt (verit) mult_nonneg_nonneg zero_le_power)
  from a lt' c(2) have "ParseDuration (ds @ [c]) = Inr (wrap64 (int (decimal 0 ds) * m))"
    unfolding m by (intro ParseDuration_extended_digits) auto
  moreover have "wrap64 (int (decimal 0 ds) * m) = int (decimal 0 ds) * m"
    using ge a by (intro wrap64_id) auto
  ultimately show "ParseDuration (ds @ x) = Inr (int (decimal 0 ds) * m)"
    by (simp add: c(1))
next
  assume "s \<noteq> [] \<and> lower_char (last s) \<in> {CHR ''d'', CHR ''w'', CHR ''y''}
        \<and> CHR ''.'' \<in> set (butlast s)"
  then show "isl (ParseDuration s)"
    by (intro ParseDuration_decimal_rejected) auto
qed

text \<open>
  Ninety minutes, half a second, and seven days, weeks and years are accepted; one and
  a half days are rejected.
\<close>

theorem ParseDuration_forms_witness:
  "ParseDuration ''90m'' = Inr 5400000000000
   \<and> ParseDuration ''0.5s'' = Inr 500000000
   \<and> ParseDuration ''7d'' = Inr (7 * 24 * Hour)
   \<and> ParseDuration ''7w'' = Inr (7 * 7 * 24 * Hour)
   \<and> ParseDuration ''7y'' = Inr (7 * 365 * 24 * Hour)
   \<and> isl (ParseDuration ''1.5d'')"
proof -
  have v: "decimal 0 ''90'' = 90" "decimal 0 ''7'' = 7"
    by (simp_all add: digit_val_def)
  have h0: "''0.5s'' \<noteq> [] \<and> time_ParseDuration ''0.5s'' = Inr 500000000"
    by (simp add: std_half)
  have h1: "digits ''90'' \<and> (''m'', 60000000000) \<in> set std_units
            \<and> decimal 0 ''90'' * 60000000000 \<le> 2 ^ 63 - 1"
    by (simp add: digits_def is_digit_def std_units_def digit_val_def)
  have h2: "digits ''7'' \<and> decimal 0 ''7'' < 2 ^ 63"
    by (simp add: digits_def is_digit_def digit_val_def)
  have h3: "''1.5d'' \<noteq> [] \<and> lower_char (last ''1.5d'') \<in> {CHR ''d'', CHR ''w'', CHR ''y''}
        \<and> CHR ''.'' \<in> set (butlast ''1.5d'')"
    by (simp add: lower_char_def)
  have h4: "digits ''7'' \<and> (''y'', 365 * 24 * Hour) \<in> set ext_units
            \<and> int (decimal 0 ''7'') * (365 * 24 * Hour) < 2 ^ 63"
    by (simp add: digits_def is_digit_def ext_units_def digit_val_def Hour_def)
  from ParseDuration_forms [of "''0.5s''" 500000000 "''90''" "''m''" 60000000000
      "''y''" "365 * 24 * Hour" "''1.5d''"] h0 h1 h3
  have a: "ParseDuration (''90'' @ ''m'') = Inr (int (decimal 0 ''90'' * 60000000000))"
    and c: "isl (ParseDuration ''1.5d'')"
    and d: "ParseDuration ''0.5s'' = Inr 500000000"
    by blast+
  from ParseDuration_forms [of "''0.5s''" 500000000 "''7''" "''m''" 60000000000
      "''y''" "365 * 24 * Hour" "''1.5d''"] h2 h4
  have b: "ParseDuration (''7'' @ ''d'') = Inr (wrap64 (int (decimal 0 ''7'') * (24 * Hour)))"
    "ParseDuration (''7'' @ ''w'') = Inr (wrap64 (int (decimal 0 ''7'') * (7 * 24 * Hour)))"
    "ParseDuration (''7'' @ ''y'') = Inr (int (decimal 0 ''7'') * (365 * 24 * Hour))"
    by blast+
  from a b c d show ?thesis unfolding v by (simp add: wrap64_def Hour_def)
qed

text \<open>
  The claim as stated, that every decimal value is rejected, fails for the standard
  units: the standard parser is tried first and accepts a fraction, so \<open>1.5h\<close> is one
  hour and thirty minutes.
\<close>

lemma leadingInt_ex: "leadingInt ''1.5h'' = Some (1, ''.5h'')"
  by (simp add: leadingInt_def is_digit_def digit_val_def)

lemma leadingFraction_ex: "leadingFraction ''5h'' = (5, 10, ''h'')"
  by (simp add: leadingFraction_def is_digit_def digit_val_def float64_numeral_exact)

lemma group_ex: "duration_group ''1.5h'' 0 = Inr (5400000000000, [])"
  by (simp add: duration_group_def leadingInt_ex leadingFraction_ex in_number_def is_digit_def
      unitMap_def Let_def float64_numeral_exact)

lemma std_ex: "time_ParseDuration ''1.5h'' = Inr 5400000000000"
  by (simp add: time_ParseDuration_def duration_groups_def group_ex Let_def
      numeral_eq_Suc [of "num.Bit0 (num.Bit0 num.One)"] del: duration_loop.simps(2))
     (simp add: group_ex)

theorem ParseDuration_decimal_counterexample:
  "ParseDuration ''1.5h'' = Inr 5400000000000 \<and> \<not> isl (ParseDuration ''1.5h'')"
  by (simp add: ParseDuration_def std_ex)

section \<open>Properties of the constructor\<close>

lemma NewWithConfig_isl:
  "isl (NewWithConfig (Some c)) \<longleftrightarrow>
        cfgFilename c = []
      \<or> (cfgMaxAge c > 0 \<and> cfgMaxAgeStr c \<noteq> [])
      \<or> (cfgMaxAgeStr c \<noteq> [] \<and> isl (ParseDuration (cfgMaxAgeStr c)))"
proof -
  define l0 where "l0 = zeroLogger\<lparr>Filename := cfgFilename c, MaxSize := cfgMaxSize c,
                           MaxBackups := cfgMaxBackups c, MaxAge := cfgMaxAge c,
                           MaxFileAge := cfgMaxFileAge c, LocalTime := cfgLocalTime c,
                           Compress := cfgCompress c, Checksum := cfgChecksum c,
                           Async := cfgAsync c, MaxSizeStr := cfgMaxSizeStr c,
                           MaxAgeStr := cfgMaxAgeStr c, ErrorCallback := cfgErrorCallback c,
                           BackpressurePolicy := cfgBackpressurePolicy c,
                           AdaptiveFlush := cfgAdaptiveFlush c\<rparr>"
  have sel: "MaxAge l0 = cfgMaxAge c" "MaxAgeStr l0 = cfgMaxAgeStr c"
    by (simp_all add: l0_def)
  show ?thesis
    unfolding NewWithConfig_def option.case l0_def [symmetric]
    by (cases "ParseDuration (cfgMaxAgeStr c)") (auto simp: Let_def sel)
qed

text \<open>
  What the constructor checks. \<open>NewWithConfig\<close> returns an error, and no Logger, for a
  nil configuration and exactly for the configurations with an empty file name, with
  both \<open>MaxAge > 0\<close> and a non-empty \<open>MaxAgeStr\<close>, or with a \<open>MaxAgeStr\<close> that
  \<open>ParseDuration\<close> rejects.
\<close>

lemma NewWithConfig_checks:
  "NewWithConfig None = Inl ErrConfigNil
   \<and> (isl (NewWithConfig (Some c)) \<longleftrightarrow>
        cfgFilename c = []
      \<or> (cfgMaxAge c > 0 \<and> cfgMaxAgeStr c \<noteq> [])
      \<or> (cfgMaxAgeStr c \<noteq> [] \<and> isl (ParseDuration (cfgMaxAgeStr c))))
   \<and> isl (NewWithConfig (Some (c\<lparr>cfgMaxSize := n, cfgMaxSizeStr := s\<rparr>)))
       = isl (NewWithConfig (Some c))"
proof -
  have "NewWithConfig None = Inl ErrConfigNil" by (simp add: NewWithConfig_def)
  then show ?thesis by (simp add: NewWithConfig_isl)
qed

text \<open>An age given twice, and an age that is no duration, are refused.\<close>

lemma NewWithConfig_checks_example:
  "isl (NewWithConfig (Some (plain_config\<lparr>cfgMaxAge := 5, cfgMaxAgeStr := ''7d''\<rparr>)))
   \<and> isl (NewWithConfig (Some (plain_config\<lparr>cfgMaxAgeStr := ''1.5d''\<rparr>)))
   \<and> \<not> isl (NewWithConfig (Some plain_config))"
proof -
  have "isl (ParseDuration ''1.5d'')"
    by (rule ParseDuration_decimal_rejected) (simp_all add: lower_char_def)
  then show ?thesis
    using NewWithConfig_checks [of "plain_config\<lparr>cfgMaxAge := 5, cfgMaxAgeStr := ''7d''\<rparr>"]
      NewWithConfig_checks [of "plain_config\<lparr>cfgMaxAgeStr := ''1.5d''\<rparr>"]
      NewWithConfig_checks [of plain_config]
    by (simp add: plain_config_def)
qed

text \<open>
  Claim C5. The constructor is to refuse a configuration that gives the size twice, or
  whose size string cannot be parsed, as it refuses the same for the age. It does not:
  the configuration with \<open>MaxSize = 10\<close> and \<open>MaxSizeStr = 1.5KB\<close>, a string
  \<open>ParseSize\<close> rejects, is accepted, and a Logger is returned with no error.
\<close>

theorem NewWithConfig_size_counterexample:
  "cfgMaxSize bad_size_config > 0 \<and> cfgMaxSizeStr bad_size_config \<noteq> []
   \<and> isl (ParseSize (cfgMaxSizeStr bad_size_config))
   \<and> \<not> isl (NewWithConfig (Some bad_size_config))"
proof -
  have nd: "isl (ParseInt ''1.5KB'')" "isl (ParseInt ''1.5'')"
    by (rule ParseInt_non_digit [of "CHR ''.''"]; simp add: is_digit_def)+
  then obtain e0 e1 where e: "ParseInt ''1.5KB'' = Inl e0" "ParseInt ''1.5'' = Inl e1"
    by (cases "ParseInt ''1.5KB''"; cases "ParseInt ''1.5''") auto
  have up: "ToUpper ''1.5KB'' = ''1.5KB''" by (simp add: ToUpper_def upper_char_def)
  have "ParseSize ''1.5KB'' = Inl (ErrInvalidSizeNumber e1)"
    by (simp add: ParseSize_def e up HasSuffix_def)
  moreover have "\<not> isl (NewWithConfig (Some bad_size_config))"
    unfolding NewWithConfig_isl by (simp add: bad_size_config_def plain_config_def)
  ultimately show ?thesis by (simp add: bad_size_config_def plain_config_def)
qed

end
